theory Spec2Isabelle
  imports Complex_Main "HOL-Library.Char_ord" "HOL-Library.List_Lexorder"
    "HOL-Library.Product_Lexorder" "HOL-Library.Log_Nat"
begin

section \<open>Errors and labels\<close>

text \<open>
  Every exception of the Python source is a value. \<open>ValidationError\<close> is what the
  helpers of \<^verbatim>\<open>vectorbt.utils.checks\<close> raise (\<^verbatim>\<open>assert_same_shape\<close>),
  \<open>TypeAssertion\<close> what \<^verbatim>\<open>checks.assert_type\<close> raises; the others are the
  Python built-ins of the same name, raised by the source itself, by pandas or by NumPy.
\<close>

datatype error = ValueError | TypeError | IndexError | ZeroDivisionError | OverflowError
  | ValidationError | TypeAssertion

text \<open>
  A row label is a Python scalar. Integers and strings are the two kinds the index
  functions tell apart (\<^verbatim>\<open>level == np.arange(len(level))\<close> holds for integers only).
\<close>

datatype label = LInt int | LStr string

fun is_int :: "label \<Rightarrow> bool" where
  "is_int (LInt _) = True"
| "is_int (LStr _) = False"

text \<open>
  The order pandas sorts labels of one kind by: integers by value, strings by code
  point. The key puts integers before strings; a list holding both kinds is never
  sorted by it (see \<open>factorize\<close>).
\<close>

fun label_key :: "label \<Rightarrow> nat \<times> int \<times> string" where
  "label_key (LInt i) = (0, i, [])"
| "label_key (LStr s) = (1, 0, s)"

section \<open>The data model of pandas indexes\<close>

text \<open>
  A \<^verbatim>\<open>pd.MultiIndex\<close> stores, for every level, a name, the level's distinct
  values (\<^verbatim>\<open>index.levels[i]\<close>) and one integer code per row
  (\<^verbatim>\<open>index.codes[i]\<close>), the position of the row's label among the distinct
  values. pandas keeps three parallel lists; here they are one list of triples, so
  that the three always have the same length. A plain \<^verbatim>\<open>pd.Index\<close> is a name
  and the labels, duplicates allowed.
\<close>

datatype level = Level (lv_name: "string option") (lv_values: "label list")
  (lv_codes: "nat list")

datatype pd_index = Index (ix_name: "string option") (ix_labels: "label list")
  | MultiIndex (mi_levels: "level list")

text \<open>
  What pandas guarantees of every MultiIndex it builds: at least one level, one code
  per row in every level, every code a position of the level's values, and no value
  twice in a level. A level may hold values that no row uses.
\<close>

definition wf_level :: "nat \<Rightarrow> level \<Rightarrow> bool" where
  "wf_level n l \<longleftrightarrow>
     length (lv_codes l) = n \<and> distinct (lv_values l) \<and>
     list_all (\<lambda>c. c < length (lv_values l)) (lv_codes l)"

fun len :: "pd_index \<Rightarrow> nat" where
  "len (Index _ vs) = length vs"
| "len (MultiIndex []) = 0"
| "len (MultiIndex (l # _)) = length (lv_codes l)"

fun wf_index :: "pd_index \<Rightarrow> bool" where
  "wf_index (Index _ _) = True"
| "wf_index (MultiIndex ls) = (ls \<noteq> [] \<and> list_all (wf_level (len (MultiIndex ls))) ls)"

fun nlevels :: "pd_index \<Rightarrow> nat" where
  "nlevels (Index _ _) = 1"
| "nlevels (MultiIndex ls) = length ls"

fun names :: "pd_index \<Rightarrow> string option list" where
  "names (Index n _) = [n]"
| "names (MultiIndex ls) = map lv_name ls"

text \<open>\<^verbatim>\<open>index.get_level_values(i)\<close>: the labels of level \<open>i\<close>, row by row.\<close>

definition level_labels :: "level \<Rightarrow> label list" where
  "level_labels l = map (\<lambda>c. lv_values l ! c) (lv_codes l)"

definition get_level_values :: "level \<Rightarrow> pd_index" where
  "get_level_values l = Index (lv_name l) (level_labels l)"

text \<open>
  \<^verbatim>\<open>index.to_numpy()\<close> of a MultiIndex: one tuple per row, holding the row's
  label in every level.
\<close>

definition tuples :: "pd_index \<Rightarrow> label list list" where
  "tuples ix = (case ix of
       Index _ vs \<Rightarrow> map (\<lambda>v. [v]) vs
     | MultiIndex ls \<Rightarrow> map (\<lambda>r. map (\<lambda>l. level_labels l ! r) ls) [0..<len ix])"

subsection \<open>Building a MultiIndex\<close>

text \<open>
  pandas factorises every array it is given: the level's values are the distinct
  labels, sorted when they can be compared (all integers or all strings), in order of
  first appearance otherwise; the codes are the positions of the labels among them.
\<close>

definition first_seen :: "label list \<Rightarrow> label list" where
  "first_seen vs = rev (remdups (rev vs))"

definition factorize :: "label list \<Rightarrow> label list" where
  "factorize vs =
     (let u = first_seen vs
      in if list_all is_int u \<or> list_all (\<lambda>v. \<not> is_int v) u
         then sort_key label_key u else u)"

definition index_of :: "label list \<Rightarrow> label \<Rightarrow> nat" where
  "index_of cats v = length (takeWhile (\<lambda>c. c \<noteq> v) cats)"

definition factorize_level :: "string option \<times> label list \<Rightarrow> level" where
  "factorize_level a =
     (let cats = factorize (snd a) in Level (fst a) cats (map (index_of cats) (snd a)))"

text \<open>
  \<^verbatim>\<open>pd.MultiIndex.from_arrays\<close>, every array with the name it carries. It raises
  ValueError when there is no array or when two arrays differ in length.
\<close>

definition from_arrays :: "(string option \<times> label list) list \<Rightarrow> error + pd_index" where
  "from_arrays arrays =
     (case arrays of
        [] \<Rightarrow> Inl ValueError
      | a # _ \<Rightarrow>
          if list_all (\<lambda>b. length (snd b) = length (snd a)) arrays
          then Inr (MultiIndex (map factorize_level arrays))
          else Inl ValueError)"

text \<open>
  \<^verbatim>\<open>pd.MultiIndex.from_tuples(tuples, names=names)\<close>: no tuple gives one empty
  array per name; otherwise the tuples are transposed into one array per position.
  Tuples of different lengths, or as many positions as there are no names for, are a
  ValueError.
\<close>

definition from_tuples :: "label list list \<Rightarrow> string option list \<Rightarrow> error + pd_index" where
  "from_tuples ts ns =
     (case ts of
        [] \<Rightarrow> from_arrays (map (\<lambda>n. (n, [])) ns)
      | t # _ \<Rightarrow>
          if \<not> list_all (\<lambda>u. length u = length t) ts then Inl ValueError
          else if length ns \<noteq> length t then Inl ValueError
          else from_arrays (map (\<lambda>i. (ns ! i, map (\<lambda>u. u ! i) ts)) [0..<length t]))"

text \<open>\<^verbatim>\<open>np.repeat(a, n)\<close> and \<^verbatim>\<open>np.tile(a, n)\<close> on a one-dimensional array.\<close>

definition np_repeat :: "'a list \<Rightarrow> nat \<Rightarrow> 'a list" where
  "np_repeat xs n = concat (map (replicate n) xs)"

definition np_tile :: "'a list \<Rightarrow> nat \<Rightarrow> 'a list" where
  "np_tile xs n = concat (replicate n xs)"

text \<open>\<^verbatim>\<open>shape[i]\<close>: an axis the shape does not have is an IndexError.\<close>

definition shape_at :: "nat list \<Rightarrow> nat \<Rightarrow> error + nat" where
  "shape_at sh i = (if i < length sh then Inr (sh ! i) else Inl IndexError)"

text \<open>
  Modelled from the spec: \<^verbatim>\<open>checks.assert_same_shape\<close> is not among the sources.
  "Shape mismatches between supplied data and declared axis/trace cardinalities fail
  fast with a validation error": two shapes are compared as a whole, or, when
  \<open>along_axis\<close> is given, one axis of the first with one axis of the second.
\<close>

definition assert_same_shape :: "nat list \<Rightarrow> nat list \<Rightarrow> (nat \<times> nat) option \<Rightarrow> error option" where
  "assert_same_shape sh1 sh2 along_axis =
     (case along_axis of
        None \<Rightarrow> if sh1 \<noteq> sh2 then Some ValidationError else None
      | Some (i, j) \<Rightarrow>
          (case shape_at sh1 i of
             Inl e \<Rightarrow> Some e
           | Inr m \<Rightarrow>
               (case shape_at sh2 j of
                  Inl e \<Rightarrow> Some e
                | Inr n \<Rightarrow> if m \<noteq> n then Some ValidationError else None)))"

text \<open>The shape of an index is its length, as a one-element tuple.\<close>

definition index_shape :: "pd_index \<Rightarrow> nat list" where
  "index_shape ix = [len ix]"

section \<open>The index functions\<close>

subsection \<open>repeat and tile\<close>

text \<open>
  \<^verbatim>\<open>np.repeat(index, n)\<close> repeats the labels of an Index and the codes of a
  MultiIndex, keeping names and level values; a negative count is a ValueError.
\<close>

definition repeat :: "pd_index \<Rightarrow> int \<Rightarrow> error + pd_index" where
  "repeat ix n =
     (if n < 0 then Inl ValueError
      else case ix of
          Index nm vs \<Rightarrow> Inr (Index nm (np_repeat vs (nat n)))
        | MultiIndex ls \<Rightarrow>
            Inr (MultiIndex (map (\<lambda>l. Level (lv_name l) (lv_values l)
                                   (np_repeat (lv_codes l) (nat n))) ls)))"

text \<open>
  An index rebuilt from its tiled (or repeated) rows, as \<^verbatim>\<open>tile\<close> and
  \<^verbatim>\<open>combine\<close> both do: a MultiIndex through \<^verbatim>\<open>from_tuples\<close> with the old
  names, a plain Index from the labels with the old name.
\<close>

definition tile_rows :: "pd_index \<Rightarrow> nat \<Rightarrow> error + pd_index" where
  "tile_rows ix n =
     (case ix of
        MultiIndex ls \<Rightarrow> from_tuples (np_tile (tuples ix) n) (names ix)
      | Index nm vs \<Rightarrow> Inr (Index nm (np_tile vs n)))"

definition repeat_rows :: "pd_index \<Rightarrow> nat \<Rightarrow> error + pd_index" where
  "repeat_rows ix n =
     (case ix of
        MultiIndex ls \<Rightarrow> from_tuples (np_repeat (tuples ix) n) (names ix)
      | Index nm vs \<Rightarrow> Inr (Index nm (np_repeat vs n)))"

definition tile :: "pd_index \<Rightarrow> int \<Rightarrow> error + pd_index" where
  "tile ix n = (if n < 0 then Inl ValueError else tile_rows ix (nat n))"

text \<open>
  Indexing an index: \<^verbatim>\<open>index[positions]\<close> takes the rows at the given
  positions (IndexError when one is out of range), keeping names and level values;
  \<^verbatim>\<open>index[::k]\<close> takes every \<open>k\<close>-th row from the first on (a step of 0 is a
  ValueError) and \<^verbatim>\<open>index[:k]\<close> the first \<open>k\<close> rows.
\<close>

definition take_idx :: "pd_index \<Rightarrow> nat list \<Rightarrow> error + pd_index" where
  "take_idx ix ps =
     (if \<not> list_all (\<lambda>p. p < len ix) ps then Inl IndexError
      else case ix of
          Index nm vs \<Rightarrow> Inr (Index nm (map (\<lambda>p. vs ! p) ps))
        | MultiIndex ls \<Rightarrow>
            Inr (MultiIndex (map (\<lambda>l. Level (lv_name l) (lv_values l)
                                   (map (\<lambda>p. lv_codes l ! p) ps)) ls)))"

definition slice_step :: "pd_index \<Rightarrow> nat \<Rightarrow> error + pd_index" where
  "slice_step ix k =
     (if k = 0 then Inl ValueError
      else take_idx ix (map (\<lambda>i. i * k) [0..<(len ix + k - 1) div k]))"

definition slice_head :: "pd_index \<Rightarrow> nat \<Rightarrow> error + pd_index" where
  "slice_head ix k = take_idx ix [0..<min k (len ix)]"

subsection \<open>stack\<close>

definition to_multi :: "pd_index \<Rightarrow> error + pd_index" where
  "to_multi ix =
     (case ix of MultiIndex _ \<Rightarrow> Inr ix | Index nm vs \<Rightarrow> from_arrays [(nm, vs)])"

definition level_arrays :: "pd_index \<Rightarrow> (string option \<times> label list) list" where
  "level_arrays ix = map (\<lambda>l. (lv_name l, level_labels l)) (mi_levels ix)"

text \<open>One round of the loop of \<^verbatim>\<open>stack\<close>: the two indexes become one.\<close>

definition stack2 :: "pd_index \<Rightarrow> pd_index \<Rightarrow> error + pd_index" where
  "stack2 index1 index2 =
     (case assert_same_shape (index_shape index1) (index_shape index2) None of
        Some e \<Rightarrow> Inl e
      | None \<Rightarrow>
          (case to_multi index1 of
             Inl e \<Rightarrow> Inl e
           | Inr m1 \<Rightarrow>
               (case to_multi index2 of
                  Inl e \<Rightarrow> Inl e
                | Inr m2 \<Rightarrow> from_arrays (level_arrays m1 @ level_arrays m2))))"

fun stack_loop :: "pd_index \<Rightarrow> pd_index list \<Rightarrow> error + pd_index" where
  "stack_loop new_index [] = Inr new_index"
| "stack_loop new_index (ix # rest) =
     (case stack2 new_index ix of
        Inl e \<Rightarrow> Inl e
      | Inr s \<Rightarrow> stack_loop s rest)"

definition stack :: "pd_index list \<Rightarrow> error + pd_index" where
  "stack indexes =
     (case indexes of [] \<Rightarrow> Inl IndexError | ix # rest \<Rightarrow> stack_loop ix rest)"

subsection \<open>combine\<close>

text \<open>
  The loop of \<^verbatim>\<open>combine\<close>. Both \<^verbatim>\<open>return\<close> statements leave the function
  from inside the loop, whatever indexes are still to come.
\<close>

fun combine_loop :: "pd_index \<Rightarrow> pd_index list \<Rightarrow> error + pd_index" where
  "combine_loop new_index [] = Inr new_index"
| "combine_loop new_index (index2 # rest) =
     (if len new_index = 1 then Inr index2
      else if len index2 = 1 then Inr new_index
      else case repeat_rows new_index (len index2) of
          Inl e \<Rightarrow> Inl e
        | Inr r1 \<Rightarrow>
            (case tile_rows index2 (len new_index) of
               Inl e \<Rightarrow> Inl e
             | Inr r2 \<Rightarrow>
                 (case stack [r1, r2] of
                    Inl e \<Rightarrow> Inl e
                  | Inr s \<Rightarrow> combine_loop s rest)))"

definition combine :: "pd_index list \<Rightarrow> error + pd_index" where
  "combine indexes =
     (case indexes of [] \<Rightarrow> Inl IndexError | ix # rest \<Rightarrow> combine_loop ix rest)"

subsection \<open>drop_redundant_levels\<close>

text \<open>
  \<^verbatim>\<open>index.droplevel(numbers)\<close> for distinct level numbers: dropping every level
  is a ValueError; one level left gives a plain Index of its labels under its name.
\<close>

definition droplevel :: "level list \<Rightarrow> nat list \<Rightarrow> error + pd_index" where
  "droplevel ls drop_nums =
     (if length drop_nums \<ge> length ls then Inl ValueError
      else case map snd (filter (\<lambda>p. fst p \<notin> set drop_nums) (enumerate 0 ls)) of
          [l] \<Rightarrow> Inr (get_level_values l)
        | kept \<Rightarrow> Inr (MultiIndex kept))"

text \<open>\<^verbatim>\<open>(level == np.arange(len(level))).all()\<close>: the values are 0, 1, 2, ...\<close>

definition basic_range :: "label list \<Rightarrow> bool" where
  "basic_range vs \<longleftrightarrow> vs = map (\<lambda>i. LInt (int i)) [0..<length vs]"

text \<open>The test of the loop body: level \<open>l\<close> goes to \<^verbatim>\<open>levels_to_drop\<close>.\<close>

definition redundant :: "level \<Rightarrow> bool" where
  "redundant l \<longleftrightarrow>
     (if length (lv_values l) = 1 then True
      else if lv_name l = None \<and> basic_range (lv_values l)
        then length (level_labels l) = length (lv_values l)
        else False)"

definition levels_to_drop :: "level list \<Rightarrow> nat list" where
  "levels_to_drop ls = map fst (filter (\<lambda>p. redundant (snd p)) (enumerate 0 ls))"

definition drop_redundant_levels :: "pd_index \<Rightarrow> error + pd_index" where
  "drop_redundant_levels ix =
     (if len ix = 1 then Inr ix
      else case ix of
          MultiIndex ls \<Rightarrow>
            if length (levels_to_drop ls) < length ls
            then droplevel ls (levels_to_drop ls)
            else Inr ix
        | Index _ _ \<Rightarrow> Inr ix)"

subsection \<open>align_to\<close>

text \<open>
  What \<^verbatim>\<open>align_to\<close> returns: \<^verbatim>\<open>pd.IndexSlice[:]\<close>, the slice that
  selects every row in its order, or an array of row positions.
\<close>

datatype indexer = SliceAll | Positions "nat list"

definition duplicated_any :: "pd_index \<Rightarrow> bool" where
  "duplicated_any ix \<longleftrightarrow> \<not> distinct (tuples ix)"

text \<open>
  \<^verbatim>\<open>pd.Index.equals\<close> on two MultiIndexes: as many levels and the same labels
  row by row; names are not compared.
\<close>

definition index_equals :: "pd_index \<Rightarrow> pd_index \<Rightarrow> bool" where
  "index_equals a b \<longleftrightarrow> nlevels a = nlevels b \<and> tuples a = tuples b"

text \<open>
  The inner loop over the levels of \<^verbatim>\<open>index2\<close>: the first level number with
  the name and the values (\<^verbatim>\<open>np.array_equal\<close>) of the given level.
\<close>

definition match_level :: "level \<Rightarrow> level list \<Rightarrow> nat option" where
  "match_level l1 ls2 =
     map_option fst
       (find (\<lambda>p. lv_name l1 = lv_name (snd p) \<and> lv_values l1 = lv_values (snd p))
          (enumerate 0 ls2))"

text \<open>
  \<^verbatim>\<open>np.argsort\<close> and \<^verbatim>\<open>np.searchsorted\<close> (left side) on rows, compared as
  tuples of labels.
\<close>

definition row_key :: "label list \<Rightarrow> (nat \<times> int \<times> string) list" where
  "row_key t = map label_key t"

definition argsort :: "label list list \<Rightarrow> nat list" where
  "argsort ts = map snd (sort_key fst (zip (map row_key ts) [0..<length ts]))"

definition searchsorted :: "label list list \<Rightarrow> label list \<Rightarrow> nat" where
  "searchsorted sorted_ts t = length (takeWhile (\<lambda>u. row_key u < row_key t) sorted_ts)"

definition align_to :: "pd_index \<Rightarrow> pd_index \<Rightarrow> error + indexer" where
  "align_to index1 index2 =
     (case to_multi index1 of
        Inl e \<Rightarrow> Inl e
      | Inr m1 \<Rightarrow>
     (case to_multi index2 of
        Inl e \<Rightarrow> Inl e
      | Inr m2 \<Rightarrow>
          if duplicated_any m1 then Inl ValueError
          else if index_equals m1 m2 then Inr SliceAll
          else if len m1 \<le> len m2 then
            if len m1 = 1 then Inl TypeError
            else
              let js = List.map_filter (\<lambda>l1. match_level l1 (mi_levels m2)) (mi_levels m1)
              in if nlevels m1 = length js then
                   (case from_arrays (map (\<lambda>j. level_arrays m2 ! j) js) of
                      Inl e \<Rightarrow> Inl e
                    | Inr new_index \<Rightarrow>
                        let xsorted = argsort (tuples m1);
                            sorted_ts = map (\<lambda>p. tuples m1 ! p) xsorted;
                            ypos = map (searchsorted sorted_ts) (tuples new_index)
                        in if list_all (\<lambda>p. p < length xsorted) ypos
                           then Inr (Positions (map (\<lambda>p. xsorted ! p) ypos))
                           else Inl IndexError)
                 else Inl ValueError
          else Inl ValueError))"

section \<open>Chart widgets: the data model\<close>

text \<open>
  A Python number is an \<^verbatim>\<open>int\<close> (unbounded) or a \<^verbatim>\<open>float\<close> (an IEEE 754
  double): a finite value, an infinity or NaN. A finite float is the real number it
  stands for; the two zeros are not told apart (no comparison does). Any other
  argument (a string, \<^verbatim>\<open>None\<close>) is \<open>NotNumber\<close>.
\<close>

datatype pyfloat = Finite real | PosInf | NegInf | NaN

datatype pynum = PyInt int | PyFloat pyfloat

datatype pyobj = Number pynum | NotNumber

text \<open>
  Python compares an int with a float by their exact values, and every comparison
  with NaN is false. The key orders the numbers that are not NaN: the stage first
  (minus infinity, finite, plus infinity), the value second.
\<close>

fun is_nan :: "pynum \<Rightarrow> bool" where
  "is_nan (PyFloat NaN) = True"
| "is_nan (PyFloat (Finite _)) = False"
| "is_nan (PyFloat PosInf) = False"
| "is_nan (PyFloat NegInf) = False"
| "is_nan (PyInt _) = False"

fun num_key :: "pynum \<Rightarrow> int \<times> real" where
  "num_key (PyInt i) = (0, of_int i)"
| "num_key (PyFloat (Finite x)) = (0, x)"
| "num_key (PyFloat PosInf) = (1, 0)"
| "num_key (PyFloat NegInf) = (- 1, 0)"
| "num_key (PyFloat NaN) = (0, 0)"

definition py_lt :: "pynum \<Rightarrow> pynum \<Rightarrow> bool" where
  "py_lt a b \<longleftrightarrow> (if is_nan a \<or> is_nan b then False else num_key a < num_key b)"

definition py_le :: "pynum \<Rightarrow> pynum \<Rightarrow> bool" where
  "py_le a b \<longleftrightarrow> (if is_nan a \<or> is_nan b then False else num_key a \<le> num_key b)"

definition py_eq :: "pynum \<Rightarrow> pynum \<Rightarrow> bool" where
  "py_eq a b \<longleftrightarrow> (if is_nan a \<or> is_nan b then False else num_key a = num_key b)"

text \<open>
  Python's \<^verbatim>\<open>min(a, b)\<close> and \<^verbatim>\<open>max(a, b)\<close> return the first argument unless
  the second is strictly smaller (larger); with a NaN on either side they return the
  first.
\<close>

definition py_min :: "pynum \<Rightarrow> pynum \<Rightarrow> pynum" where
  "py_min a b = (if py_lt b a then b else a)"

definition py_max :: "pynum \<Rightarrow> pynum \<Rightarrow> pynum" where
  "py_max a b = (if py_lt a b then b else a)"

text \<open>
  Rounding to the nearest, halves to the even neighbour: of a real to an integer
  (\<^verbatim>\<open>np.round\<close>), and of a real to a double. A double is a multiple of the
  smallest one, 2 to the power -1074, with at most 53 significant bits: the real is
  scaled to that unit, the bits beyond the first 53 of its integer part are rounded
  away, and a result of 2 to the power 1024 or more is an infinity.
\<close>

definition round_half_even :: "real \<Rightarrow> int" where
  "round_half_even x =
     (let f = \<lfloor>x\<rfloor>; d = x - of_int f
      in if d < 1 / 2 then f else if d > 1 / 2 then f + 1
         else if even f then f else f + 1)"

definition unit_exp :: nat where
  "unit_exp = 1074"

definition max_exp :: nat where
  "max_exp = 1024"

definition round_double :: "real \<Rightarrow> pyfloat" where
  "round_double x =
     (let n = x * 2 ^ unit_exp;
          s = nat (bitlen \<lfloor>\<bar>n\<bar>\<rfloor> - 53);
          y = of_int (round_half_even (n / 2 ^ s)) * 2 ^ s / 2 ^ unit_exp
      in if y \<ge> 2 ^ max_exp then PosInf else if y \<le> - (2 ^ max_exp) then NegInf
         else Finite y)"

text \<open>The reals that are doubles: rounding leaves them as they are.\<close>

definition is_double :: "real \<Rightarrow> bool" where
  "is_double x \<longleftrightarrow> round_double x = Finite x"

text \<open>
  Float arithmetic: the exact result, rounded; NaN spreads, and so do the infinities
  where the result has a sign. Division is only reached with a divisor that is not
  zero (see \<open>py_truediv\<close>).
\<close>

fun float_sub :: "pyfloat \<Rightarrow> pyfloat \<Rightarrow> pyfloat" where
  "float_sub NaN _ = NaN"
| "float_sub _ NaN = NaN"
| "float_sub (Finite a) (Finite b) = round_double (a - b)"
| "float_sub (Finite _) PosInf = NegInf"
| "float_sub (Finite _) NegInf = PosInf"
| "float_sub PosInf PosInf = NaN"
| "float_sub NegInf NegInf = NaN"
| "float_sub PosInf _ = PosInf"
| "float_sub NegInf _ = NegInf"

fun float_neg :: "pyfloat \<Rightarrow> pyfloat" where
  "float_neg (Finite a) = Finite (- a)"
| "float_neg PosInf = NegInf"
| "float_neg NegInf = PosInf"
| "float_neg NaN = NaN"

fun float_mul :: "pyfloat \<Rightarrow> pyfloat \<Rightarrow> pyfloat" where
  "float_mul NaN _ = NaN"
| "float_mul _ NaN = NaN"
| "float_mul (Finite a) (Finite b) = round_double (a * b)"
| "float_mul (Finite a) y = (if a = 0 then NaN else if a > 0 then y else float_neg y)"
| "float_mul x (Finite b) = (if b = 0 then NaN else if b > 0 then x else float_neg x)"
| "float_mul x y = (if x = y then PosInf else NegInf)"

fun float_div :: "pyfloat \<Rightarrow> pyfloat \<Rightarrow> pyfloat" where
  "float_div NaN _ = NaN"
| "float_div _ NaN = NaN"
| "float_div (Finite a) (Finite b) = round_double (a / b)"
| "float_div (Finite _) _ = Finite 0"
| "float_div x (Finite b) = (if b > 0 then x else float_neg x)"
| "float_div _ _ = NaN"

text \<open>
  An int becomes a float by rounding; one too large for a double is an OverflowError.
\<close>

definition to_float :: "pynum \<Rightarrow> error + pyfloat" where
  "to_float a =
     (case a of
        PyFloat f \<Rightarrow> Inr f
      | PyInt i \<Rightarrow>
          (case round_double (of_int i) of
             Finite y \<Rightarrow> Inr (Finite y)
           | _ \<Rightarrow> Inl OverflowError))"

text \<open>
  Python's \<^verbatim>\<open>a - b\<close>: exact on two ints; otherwise both become floats and the
  difference is rounded.
\<close>

definition py_sub :: "pynum \<Rightarrow> pynum \<Rightarrow> error + pynum" where
  "py_sub a b =
     (case (a, b) of
        (PyInt i, PyInt j) \<Rightarrow> Inr (PyInt (i - j))
      | _ \<Rightarrow>
          (case to_float a of
             Inl e \<Rightarrow> Inl e
           | Inr x \<Rightarrow>
               (case to_float b of
                  Inl e \<Rightarrow> Inl e
                | Inr y \<Rightarrow> Inr (PyFloat (float_sub x y)))))"

text \<open>
  Python's \<^verbatim>\<open>a / b\<close> always gives a float and raises ZeroDivisionError on a zero
  divisor. The quotient of two ints is rounded once, and is an OverflowError when too
  large; otherwise both become floats first.
\<close>

definition py_truediv :: "pynum \<Rightarrow> pynum \<Rightarrow> error + pyfloat" where
  "py_truediv a b =
     (case (a, b) of
        (PyInt i, PyInt j) \<Rightarrow>
          if j = 0 then Inl ZeroDivisionError
          else (case round_double (of_int i / of_int j) of
                  Finite y \<Rightarrow> Inr (Finite y)
                | _ \<Rightarrow> Inl OverflowError)
      | _ \<Rightarrow>
          (case to_float a of
             Inl e \<Rightarrow> Inl e
           | Inr x \<Rightarrow>
               (case to_float b of
                  Inl e \<Rightarrow> Inl e
                | Inr y \<Rightarrow>
                    if y = Finite 0 then Inl ZeroDivisionError
                    else Inr (float_div x y))))"

text \<open>
  Modelled from the spec: \<^verbatim>\<open>checks.assert_type\<close> is not among the sources; it is
  the "underlying type-assertion" that fails on an argument of another type.
\<close>

definition assert_type_number :: "pyobj \<Rightarrow> error + pynum" where
  "assert_type_number v = (case v of Number n \<Rightarrow> Inr n | NotNumber \<Rightarrow> Inl TypeAssertion)"

text \<open>
  A NumPy array: its shape and its elements in row-major order. The arrays the
  widgets are given are well formed: as many elements as the shape says.
\<close>

datatype 'v ndarray = NDArray (shape: "nat list") (buffer: "'v list")

definition wf_array :: "'v ndarray \<Rightarrow> bool" where
  "wf_array a \<longleftrightarrow> length (buffer a) = prod_list (shape a)"

text \<open>
  Modelled from the spec: \<^verbatim>\<open>reshape_fns.to_2d\<close> is not among the sources; it is
  the "conversion to 2-dimensional form". A two-dimensional array is left as it is and
  a one-dimensional array of \<open>n\<close> elements becomes one column, of shape \<open>(n, 1)\<close>
  (the docstring of \<^verbatim>\<open>Bar\<close> passes \<^verbatim>\<open>data=[1, 2]\<close> for two labels and one
  trace); a scalar becomes \<open>(1, 1)\<close>; more dimensions cannot be converted.
\<close>

definition to_2d :: "'v ndarray \<Rightarrow> error + 'v ndarray" where
  "to_2d a =
     (case shape a of
        [] \<Rightarrow> Inr (NDArray [1, 1] (buffer a))
      | [n] \<Rightarrow> Inr (NDArray [n, 1] (buffer a))
      | [r, c] \<Rightarrow> Inr a
      | _ \<Rightarrow> Inl ValueError)"

text \<open>
  \<^verbatim>\<open>data[:, i]\<close>, column \<open>i\<close> of a two-dimensional array (IndexError when the
  array has no such column), and \<^verbatim>\<open>data.transpose()\<close>.
\<close>

definition column :: "'v ndarray \<Rightarrow> nat \<Rightarrow> error + 'v list" where
  "column a i =
     (case shape a of
        [r, c] \<Rightarrow> if i < c then Inr (map (\<lambda>k. buffer a ! (k * c + i)) [0..<r])
                  else Inl IndexError
      | _ \<Rightarrow> Inl IndexError)"

definition transpose2 :: "'v ndarray \<Rightarrow> 'v ndarray" where
  "transpose2 a =
     (case shape a of
        [r, c] \<Rightarrow> NDArray [c, r]
                    (concat (map (\<lambda>j. map (\<lambda>k. buffer a ! (k * c + j)) [0..<r]) [0..<c]))
      | _ \<Rightarrow> NDArray (rev (shape a)) (buffer a))"

text \<open>
  Modelled from the spec: the base class \<^verbatim>\<open>UpdatableFigureWidget\<close> is not among
  the sources. Every widget "wraps a mutable chart figure": a layout, which is a
  dictionary of properties, and a list of traces (\<^verbatim>\<open>self.data\<close>) in the order
  they were added. \<^verbatim>\<open>update_layout(**kwargs)\<close> overwrites the properties it is
  given; \<^verbatim>\<open>batch_update\<close> only delays the redraw and has no effect on the state.
\<close>

type_synonym props = "string \<rightharpoonup> string"

definition update_layout :: "(string \<times> string) list \<Rightarrow> props \<Rightarrow> props" where
  "update_layout kwargs lay = lay ++ map_of kwargs"

text \<open>
  A trace of a bar or scatter plot: its x labels, its name, its y values, the colour
  scale and colour of its markers, and whatever else \<^verbatim>\<open>trace_kwargs\<close> has set
  (line colours, widths, ...).
\<close>

datatype 'v marker_color = ColorUnset | ColorName string | ColorValues "'v list"

record 'v xy_trace =
  tr_x :: "string list"
  tr_name :: "string option"
  tr_y :: "'v list option"
  tr_colorscale :: "string option"
  tr_color :: "'v marker_color"
  tr_props :: props

text \<open>The state of a \<^verbatim>\<open>Bar\<close> or a \<^verbatim>\<open>Scatter\<close> widget.\<close>

record 'v xy_widget =
  x_labels :: "string list"
  trace_names :: "string option list"
  layout :: props
  traces :: "'v xy_trace list"

text \<open>The one trace of a heatmap, and the state of a \<^verbatim>\<open>Heatmap\<close> widget.\<close>

record 'v heatmap_trace =
  hm_x :: "string list option"
  hm_y :: "string list option"
  hm_z :: "'v ndarray option"
  hm_hoverongaps :: bool
  hm_colorscale :: string
  hm_props :: props

record 'v heatmap =
  hm_x_labels :: "string list"
  hm_y_labels :: "string list"
  hm_horizontal :: bool
  hm_layout :: props
  hm_traces :: "'v heatmap_trace list"

text \<open>The one trace of an indicator, and the state of an \<^verbatim>\<open>Indicator\<close> widget.\<close>

record indicator_trace =
  ind_title :: "string option"
  ind_mode :: string
  ind_number :: "pynum option"
  delta_reference :: "pynum option"
  gauge_axis_range :: "(pynum \<times> pynum) option"
  gauge_bar_color :: "string option"

record indicator =
  value_range :: "(pynum \<times> pynum) option"
  cmap_name :: "string option"
  ind_layout :: props
  ind_traces :: "indicator_trace list"

section \<open>Chart widgets: the operations\<close>

subsection \<open>Indicator\<close>

text \<open>\<^verbatim>\<open>"%d"\<close> prints an integer in decimal.\<close>

definition digit_char :: "nat \<Rightarrow> char" where
  "digit_char d = char_of (48 + d)"

function show_nat :: "nat \<Rightarrow> string" where
  "show_nat n = (if n < 10 then [digit_char n] else show_nat (n div 10) @ [digit_char (n mod 10)])"
  by pat_completeness auto
termination
  by (relation "measure (\<lambda>n. n)") auto

definition show_int :: "int \<Rightarrow> string" where
  "show_int i = (if i < 0 then CHR ''-'' # show_nat (nat (- i)) else show_nat (nat i))"

text \<open>
  \<^verbatim>\<open>np.round\<close> on a float, and \<^verbatim>\<open>"%d"\<close> of a float: the integer towards
  zero; NaN is a ValueError and an infinity an OverflowError.
\<close>

fun np_round :: "pyfloat \<Rightarrow> pyfloat" where
  "np_round (Finite x) = Finite (of_int (round_half_even x))"
| "np_round f = f"

fun format_d :: "pyfloat \<Rightarrow> error + string" where
  "format_d (Finite x) = Inr (show_int (if x \<ge> 0 then \<lfloor>x\<rfloor> else \<lceil>x\<rceil>))"
| "format_d NaN = Inl ValueError"
| "format_d PosInf = Inl OverflowError"
| "format_d NegInf = Inl OverflowError"

text \<open>
  The colormaps of matplotlib, by name: \<^verbatim>\<open>plt.get_cmap(name)\<close> raises ValueError
  for a name it does not know; a colormap sends a position to its RGBA components.
\<close>

type_synonym colormaps =
  "string \<Rightarrow> (pyfloat \<Rightarrow> pyfloat \<times> pyfloat \<times> pyfloat \<times> pyfloat) option"

text \<open>The first four lines of \<^verbatim>\<open>rgb_from_cmap\<close>: the position of the value in its range.\<close>

definition norm_value :: "pynum \<Rightarrow> pynum \<times> pynum \<Rightarrow> error + pyfloat" where
  "norm_value v rng =
     (if py_eq (fst rng) (snd rng) then Inr (Finite (1 / 2))
      else case py_sub v (fst rng) of
          Inl e \<Rightarrow> Inl e
        | Inr a \<Rightarrow>
            (case py_sub (snd rng) (fst rng) of
               Inl e \<Rightarrow> Inl e
             | Inr b \<Rightarrow> py_truediv a b))"

text \<open>One component of the colour: times 255, rounded, printed.\<close>

definition component :: "pyfloat \<Rightarrow> error + string" where
  "component c = format_d (np_round (float_mul c (Finite 255)))"

definition rgb_from_cmap :: "colormaps \<Rightarrow> string \<Rightarrow> pynum \<Rightarrow> pynum \<times> pynum \<Rightarrow> error + string" where
  "rgb_from_cmap get_cmap name v rng =
     (case norm_value v rng of
        Inl e \<Rightarrow> Inl e
      | Inr nv \<Rightarrow>
          (case get_cmap name of
             None \<Rightarrow> Inl ValueError
           | Some cmap \<Rightarrow>
               (case cmap nv of
                  (r, g, b, a) \<Rightarrow>
                    (case component r of
                       Inl e \<Rightarrow> Inl e
                     | Inr rs \<Rightarrow>
                         (case component g of
                            Inl e \<Rightarrow> Inl e
                          | Inr gs \<Rightarrow>
                              (case component b of
                                 Inl e \<Rightarrow> Inl e
                               | Inr bs \<Rightarrow>
                                   Inr (''rgb('' @ rs @ '','' @ gs @ '','' @ bs @ '')'')))))))"

text \<open>
  \<^verbatim>\<open>Indicator.update_data\<close>. A call changes the widget in place, so the model
  returns the widget as the call leaves it together with the exception, if one was
  raised: the range is already stored when the figure is touched.
\<close>

definition Indicator_update_data :: "colormaps \<Rightarrow> pyobj \<Rightarrow> indicator \<Rightarrow> indicator \<times> error option" where
  "Indicator_update_data get_cmap val w =
     (case assert_type_number val of
        Inl e \<Rightarrow> (w, Some e)
      | Inr v \<Rightarrow>
          (let rng = (case value_range w of
                        None \<Rightarrow> (v, v)
                      | Some old \<Rightarrow> (py_min (fst old) v, py_max (snd old) v));
               w1 = w\<lparr>value_range := Some rng\<rparr>
           in (case ind_traces w1 of
                 [] \<Rightarrow> (w1, Some IndexError)
               | t # ts \<Rightarrow>
                   (let t1 = t\<lparr>gauge_axis_range := Some rng\<rparr>;
                        colored =
                          (case cmap_name w1 of
                             None \<Rightarrow> Inr t1
                           | Some name \<Rightarrow>
                               (case rgb_from_cmap get_cmap name v rng of
                                  Inl e \<Rightarrow> Inl e
                                | Inr c \<Rightarrow> Inr (t1\<lparr>gauge_bar_color := Some c\<rparr>)))
                    in (case colored of
                          Inl e \<Rightarrow> (w1\<lparr>ind_traces := t1 # ts\<rparr>, Some e)
                        | Inr t2 \<Rightarrow>
                            (let t3 = t2\<lparr>delta_reference := ind_number t2,
                                          ind_number := Some v\<rparr>
                             in (w1\<lparr>ind_traces := t3 # ts\<rparr>, None)))))))"

text \<open>
  For the examples: a colormap table that knows \<^verbatim>\<open>Spectral\<close> only and sends
  every position to pure red, and the widget \<^verbatim>\<open>Indicator()\<close> builds with it.
\<close>

definition example_cmaps :: colormaps where
  "example_cmaps name =
     (if name = ''Spectral'' then Some (\<lambda>x. (Finite 1, Finite 0, Finite 0, Finite 1))
      else None)"

definition example_indicator :: indicator where
  "example_indicator =
     \<lparr>value_range = None, cmap_name = Some ''Spectral'',
      ind_layout = update_layout []
        (update_layout [(''width'', ''500''), (''height'', ''300'')] Map.empty),
      ind_traces = [\<lparr>ind_title = None, ind_mode = ''gauge+number+delta'', ind_number = None,
                      delta_reference = None, gauge_axis_range = None,
                      gauge_bar_color = None\<rparr>]\<rparr>"

text \<open>
  A run of calls of \<^verbatim>\<open>update_data\<close> on one widget, one number after the other;
  a call that raises leaves the widget as it was at the exception, and the next call
  goes on from there.
\<close>

fun update_all :: "colormaps \<Rightarrow> pynum list \<Rightarrow> indicator \<Rightarrow> indicator" where
  "update_all get_cmap [] w = w"
| "update_all get_cmap (v # vs) w =
     update_all get_cmap vs (fst (Indicator_update_data get_cmap (Number v) w))"

text \<open>
  A number lies in a stored range; a stored range is covered by a later one (no range
  stored is covered by anything).
\<close>

definition in_range :: "pynum \<Rightarrow> (pynum \<times> pynum) option \<Rightarrow> bool" where
  "in_range v r =
     (case r of
        None \<Rightarrow> False
      | Some b \<Rightarrow> py_le (fst b) v \<and> py_le v (snd b))"

definition covered_by :: "(pynum \<times> pynum) option \<Rightarrow> (pynum \<times> pynum) option \<Rightarrow> bool" where
  "covered_by r r' =
     (case r of
        None \<Rightarrow> True
      | Some b \<Rightarrow>
          (case r' of
             None \<Rightarrow> False
           | Some b' \<Rightarrow> py_le (fst b') (fst b) \<and> py_le (snd b) (snd b')))"

text \<open>A stored range with no NaN at either end.\<close>

definition nan_free :: "(pynum \<times> pynum) option \<Rightarrow> bool" where
  "nan_free r = (case r of None \<Rightarrow> True | Some b \<Rightarrow> \<not> is_nan (fst b) \<and> \<not> is_nan (snd b))"

text \<open>
  \<^verbatim>\<open>Indicator.__init__\<close>: the layout, one trace, and the first value when one is
  given. \<^verbatim>\<open>trace_kwargs\<close> is whatever it does to the new trace. An exception in
  the constructor leaves no widget.
\<close>

definition Indicator_init ::
  "colormaps \<Rightarrow> pyobj option \<Rightarrow> string option \<Rightarrow> (pynum \<times> pynum) option \<Rightarrow> string option \<Rightarrow>
   (indicator_trace \<Rightarrow> indicator_trace) \<Rightarrow> (string \<times> string) list \<Rightarrow> error + indicator" where
  "Indicator_init get_cmap val label rng cmap trace_kwargs layout_kwargs =
     (let t = \<lparr>ind_title = label, ind_mode = ''gauge+number+delta'', ind_number = None,
               delta_reference = None, gauge_axis_range = None, gauge_bar_color = None\<rparr>;
          w = \<lparr>value_range = rng, cmap_name = cmap,
               ind_layout = update_layout layout_kwargs
                 (update_layout [(''width'', ''500''), (''height'', ''300'')] Map.empty),
               ind_traces = [trace_kwargs t]\<rparr>
      in (case val of
            None \<Rightarrow> Inr w
          | Some v \<Rightarrow>
              (case Indicator_update_data get_cmap v w of
                 (w', None) \<Rightarrow> Inr w'
               | (w', Some e) \<Rightarrow> Inl e)))"

subsection \<open>Bar and Scatter\<close>

text \<open>
  The shape checks that open \<^verbatim>\<open>Bar.update_data\<close> and
  \<^verbatim>\<open>Scatter.update_data\<close>: axis 0 of the data against the x labels, axis 1
  against the trace names. A list of labels has the shape of its length.
\<close>

definition check_xy_shape :: "'v ndarray \<Rightarrow> ('v, 'z) xy_widget_scheme \<Rightarrow> error option" where
  "check_xy_shape d w =
     (case assert_same_shape (shape d) [length (x_labels w)] (Some (0, 0)) of
        Some e \<Rightarrow> Some e
      | None \<Rightarrow> assert_same_shape (shape d) [length (trace_names w)] (Some (1, 0)))"

text \<open>
  The loops over \<^verbatim>\<open>enumerate(self.data)\<close>. A trace the data has no column for
  raises IndexError when its turn comes; the traces before it are already updated.
\<close>

fun bar_loop :: "'v ndarray \<Rightarrow> nat \<Rightarrow> 'v xy_trace list \<Rightarrow> 'v xy_trace list \<times> error option" where
  "bar_loop d i [] = ([], None)"
| "bar_loop d i (bar # rest) =
     (case column d i of
        Inl e \<Rightarrow> (bar # rest, Some e)
      | Inr col \<Rightarrow>
          (let bar1 = bar\<lparr>tr_y := Some col\<rparr>;
               bar2 = (if tr_colorscale bar1 \<noteq> None then bar1\<lparr>tr_color := ColorValues col\<rparr>
                       else bar1);
               r = bar_loop d (Suc i) rest
           in (bar2 # fst r, snd r)))"

fun scatter_loop :: "'v ndarray \<Rightarrow> nat \<Rightarrow> 'v xy_trace list \<Rightarrow> 'v xy_trace list \<times> error option" where
  "scatter_loop d i [] = ([], None)"
| "scatter_loop d i (scatter # rest) =
     (case column d i of
        Inl e \<Rightarrow> (scatter # rest, Some e)
      | Inr col \<Rightarrow>
          (let r = scatter_loop d (Suc i) rest
           in (scatter\<lparr>tr_y := Some col\<rparr> # fst r, snd r)))"

definition Bar_update_data :: "'v ndarray \<Rightarrow> 'v xy_widget \<Rightarrow> 'v xy_widget \<times> error option" where
  "Bar_update_data arr w =
     (case to_2d arr of
        Inl e \<Rightarrow> (w, Some e)
      | Inr d \<Rightarrow>
          (case check_xy_shape d w of
             Some e \<Rightarrow> (w, Some e)
           | None \<Rightarrow>
               (let r = bar_loop d 0 (traces w) in (w\<lparr>traces := fst r\<rparr>, snd r))))"

definition Scatter_update_data :: "'v ndarray \<Rightarrow> 'v xy_widget \<Rightarrow> 'v xy_widget \<times> error option" where
  "Scatter_update_data arr w =
     (case to_2d arr of
        Inl e \<Rightarrow> (w, Some e)
      | Inr d \<Rightarrow>
          (case check_xy_shape d w of
             Some e \<Rightarrow> (w, Some e)
           | None \<Rightarrow>
               (let r = scatter_loop d 0 (traces w) in (w\<lparr>traces := fst r\<rparr>, snd r))))"

text \<open>
  The constructors. \<^verbatim>\<open>trace_names\<close> is \<^verbatim>\<open>None\<close>, one string or a list;
  \<^verbatim>\<open>trace_kwargs\<close> is one dictionary for every trace or a list with one per trace,
  each modelled by what it does to the new trace.
\<close>

datatype names_arg = NoName | OneName string | NameList "string option list"

fun norm_trace_names :: "names_arg \<Rightarrow> string option list" where
  "norm_trace_names NoName = [None]"
| "norm_trace_names (OneName s) = [Some s]"
| "norm_trace_names (NameList ns) = ns"

datatype 'v kwargs_arg = KwOne "'v xy_trace \<Rightarrow> 'v xy_trace"
  | KwList "('v xy_trace \<Rightarrow> 'v xy_trace) list"

fun kwargs_at :: "'v kwargs_arg \<Rightarrow> nat \<Rightarrow> error + ('v xy_trace \<Rightarrow> 'v xy_trace)" where
  "kwargs_at (KwOne f) i = Inr f"
| "kwargs_at (KwList fs) i = (if i < length fs then Inr (fs ! i) else Inl IndexError)"

fun add_traces :: "string list \<Rightarrow> 'v kwargs_arg \<Rightarrow> nat \<Rightarrow> string option list \<Rightarrow> error + 'v xy_trace list" where
  "add_traces xs kw i [] = Inr []"
| "add_traces xs kw i (nm # rest) =
     (case kwargs_at kw i of
        Inl e \<Rightarrow> Inl e
      | Inr f \<Rightarrow>
          (case add_traces xs kw (Suc i) rest of
             Inl e \<Rightarrow> Inl e
           | Inr ts \<Rightarrow>
               Inr (f \<lparr>tr_x = xs, tr_name = nm, tr_y = None, tr_colorscale = None,
                       tr_color = ColorUnset, tr_props = Map.empty\<rparr> # ts)))"

definition xy_init ::
  "string list \<Rightarrow> names_arg \<Rightarrow> 'v kwargs_arg \<Rightarrow> (string \<times> string) list \<Rightarrow> error + 'v xy_widget" where
  "xy_init xs names_given kw layout_kwargs =
     (let tn = norm_trace_names names_given
      in (case tn of
            [] \<Rightarrow> Inl IndexError
          | n0 # _ \<Rightarrow>
              (let lay0 = (if length tn > 1 \<or> n0 \<noteq> None
                           then update_layout [(''showlegend'', ''True'')] Map.empty
                           else Map.empty)
               in (case add_traces xs kw 0 tn of
                     Inl e \<Rightarrow> Inl e
                   | Inr ts \<Rightarrow>
                       Inr \<lparr>x_labels = xs, trace_names = tn,
                            layout = update_layout layout_kwargs lay0, traces = ts\<rparr>))))"

definition Bar_init ::
  "string list \<Rightarrow> names_arg \<Rightarrow> 'v ndarray option \<Rightarrow> 'v kwargs_arg \<Rightarrow> (string \<times> string) list \<Rightarrow>
   error + 'v xy_widget" where
  "Bar_init xs names_given arr kw layout_kwargs =
     (case xy_init xs names_given kw layout_kwargs of
        Inl e \<Rightarrow> Inl e
      | Inr w \<Rightarrow>
          (case arr of
             None \<Rightarrow> Inr w
           | Some a \<Rightarrow>
               (case Bar_update_data a w of
                  (w', None) \<Rightarrow> Inr w'
                | (w', Some e) \<Rightarrow> Inl e)))"

definition Scatter_init ::
  "string list \<Rightarrow> names_arg \<Rightarrow> 'v ndarray option \<Rightarrow> 'v kwargs_arg \<Rightarrow> (string \<times> string) list \<Rightarrow>
   error + 'v xy_widget" where
  "Scatter_init xs names_given arr kw layout_kwargs =
     (case xy_init xs names_given kw layout_kwargs of
        Inl e \<Rightarrow> Inl e
      | Inr w \<Rightarrow>
          (case arr of
             None \<Rightarrow> Inr w
           | Some a \<Rightarrow>
               (case Scatter_update_data a w of
                  (w', None) \<Rightarrow> Inr w'
                | (w', Some e) \<Rightarrow> Inl e)))"

subsection \<open>Heatmap\<close>

text \<open>
  \<^verbatim>\<open>Heatmap.update_data\<close> checks axis 1 of the data against the x labels, then
  axis 0 against the y labels, and stores the data (transposed when the plot is
  horizontal) as the \<open>z\<close> of the first trace.
\<close>

definition check_heatmap_shape :: "'v ndarray \<Rightarrow> ('v, 'z) heatmap_scheme \<Rightarrow> error option" where
  "check_heatmap_shape d w =
     (case assert_same_shape (shape d) [length (hm_x_labels w)] (Some (1, 0)) of
        Some e \<Rightarrow> Some e
      | None \<Rightarrow> assert_same_shape (shape d) [length (hm_y_labels w)] (Some (0, 0)))"

definition Heatmap_update_data :: "'v ndarray \<Rightarrow> 'v heatmap \<Rightarrow> 'v heatmap \<times> error option" where
  "Heatmap_update_data arr w =
     (case to_2d arr of
        Inl e \<Rightarrow> (w, Some e)
      | Inr d \<Rightarrow>
          (case check_heatmap_shape d w of
             Some e \<Rightarrow> (w, Some e)
           | None \<Rightarrow>
               (case hm_traces w of
                  [] \<Rightarrow> (w, Some IndexError)
                | t # ts \<Rightarrow>
                    (w\<lparr>hm_traces :=
                         t\<lparr>hm_z := Some (if hm_horizontal w then transpose2 d else d)\<rparr> # ts\<rparr>,
                     None))))"

definition Heatmap_init ::
  "string list \<Rightarrow> string list \<Rightarrow> 'v ndarray option \<Rightarrow> bool \<Rightarrow>
   ('v heatmap_trace \<Rightarrow> 'v heatmap_trace) \<Rightarrow> (string \<times> string) list \<Rightarrow> error + 'v heatmap" where
  "Heatmap_init xs ys arr horizontal trace_kwargs layout_kwargs =
     (let t0 = \<lparr>hm_x = None, hm_y = None, hm_z = None, hm_hoverongaps = False,
                hm_colorscale = ''Plasma'', hm_props = Map.empty\<rparr>;
          t1 = (if horizontal then t0\<lparr>hm_y := Some xs, hm_x := Some ys\<rparr>
                else t0\<lparr>hm_x := Some xs, hm_y := Some ys\<rparr>);
          w = \<lparr>hm_x_labels = xs, hm_y_labels = ys, hm_horizontal = horizontal,
               hm_layout = update_layout layout_kwargs Map.empty,
               hm_traces = [trace_kwargs t1]\<rparr>
      in (case arr of
            None \<Rightarrow> Inr w
          | Some a \<Rightarrow>
              (case Heatmap_update_data a w of
                 (w', None) \<Rightarrow> Inr w'
               | (w', Some e) \<Rightarrow> Inl e)))"

section \<open>Properties of the index functions\<close>

subsection \<open>Factorising and rebuilding\<close>

lemma set_first_seen: "set (first_seen vs) = set vs"
  by (simp add: first_seen_def)

lemma distinct_first_seen: "distinct (first_seen vs)"
  by (simp add: first_seen_def)

lemma set_factorize: "set (factorize vs) = set vs"
  by (simp add: factorize_def Let_def set_first_seen)

lemma distinct_factorize: "distinct (factorize vs)"
  by (simp add: factorize_def Let_def distinct_first_seen)

lemma index_of_less: "v \<in> set cats \<Longrightarrow> index_of cats v < length cats"
  by (induction cats) (auto simp: index_of_def)

lemma nth_index_of: "v \<in> set cats \<Longrightarrow> cats ! index_of cats v = v"
  by (induction cats) (auto simp: index_of_def)

lemma level_labels_factorize: "level_labels (factorize_level a) = snd a"
  by (simp add: level_labels_def factorize_level_def Let_def map_idI nth_index_of set_factorize)

lemma lv_name_factorize: "lv_name (factorize_level a) = fst a"
  by (simp add: factorize_level_def Let_def)

lemma codes_factorize: "length (lv_codes (factorize_level a)) = length (snd a)"
  by (simp add: factorize_level_def Let_def)

lemma wf_factorize_level: "wf_level (length (snd a)) (factorize_level a)"
  by (simp add: wf_level_def factorize_level_def Let_def distinct_factorize list_all_iff
      index_of_less set_factorize)

lemma length_level_labels: "length (level_labels l) = length (lv_codes l)"
  by (simp add: level_labels_def)

lemma from_arrays_ok:
  assumes "arrays \<noteq> []" and "\<forall>a\<in>set arrays. length (snd a) = n"
  shows "from_arrays arrays = Inr (MultiIndex (map factorize_level arrays))"
  using assms by (cases arrays) (auto simp: from_arrays_def list_all_iff)

lemma len_factorized:
  assumes "arrays \<noteq> []" and "\<forall>a\<in>set arrays. length (snd a) = n"
  shows "len (MultiIndex (map factorize_level arrays)) = n"
  using assms by (cases arrays) (auto simp: codes_factorize)

lemma wf_factorized:
  assumes "arrays \<noteq> []" and "\<forall>a\<in>set arrays. length (snd a) = n"
  shows "wf_index (MultiIndex (map factorize_level arrays))"
proof -
  have "wf_level n (factorize_level a)" if "a \<in> set arrays" for a
    using wf_factorize_level [of a] assms(2) that by simp
  then show ?thesis
    using assms len_factorized [OF assms] by (simp add: list_all_iff)
qed

lemma tuples_factorized:
  assumes "arrays \<noteq> []" and "\<forall>a\<in>set arrays. length (snd a) = n"
  shows "tuples (MultiIndex (map factorize_level arrays)) =
         map (\<lambda>r. map (\<lambda>a. snd a ! r) arrays) [0..<n]"
  using len_factorized [OF assms]
  by (simp add: tuples_def level_labels_factorize comp_def)

lemma level_arrays_factorized:
  "level_arrays (MultiIndex (map factorize_level arrays)) = arrays"
  by (simp add: level_arrays_def comp_def level_labels_factorize lv_name_factorize)

lemma wf_level_arrays:
  assumes "wf_index (MultiIndex ls)"
  shows "\<forall>a\<in>set (level_arrays (MultiIndex ls)). length (snd a) = len (MultiIndex ls)"
  using assms by (auto simp: level_arrays_def list_all_iff wf_level_def length_level_labels)

lemma tuples_level_arrays:
  "tuples (MultiIndex ls) =
     map (\<lambda>r. map (\<lambda>a. snd a ! r) (level_arrays (MultiIndex ls))) [0..<len (MultiIndex ls)]"
  by (simp add: tuples_def level_arrays_def comp_def)

lemma names_level_arrays: "names (MultiIndex ls) = map fst (level_arrays (MultiIndex ls))"
  by (simp add: level_arrays_def comp_def)

lemma map_nth_upt: "map (\<lambda>i. f (xs ! i)) [0..<length xs] = map f xs"
proof -
  have "map (\<lambda>i. f (xs ! i)) [0..<length xs] = map f (map ((!) xs) [0..<length xs])"
    by (simp only: map_map comp_def)
  then show ?thesis by (simp only: map_nth)
qed


lemma to_multi_ok:
  assumes "wf_index ix"
  shows "\<exists>m. to_multi ix = Inr m \<and> wf_index m \<and> len m = len ix \<and> tuples m = tuples ix
           \<and> names m = names ix \<and> nlevels m = nlevels ix \<and> (\<exists>ls. m = MultiIndex ls)"
proof (cases ix)
  case (Index nm vs)
  have ne: "[(nm, vs)] \<noteq> []" and al: "\<forall>a\<in>set [(nm, vs)]. length (snd a) = length vs"
    by simp_all
  let ?m = "MultiIndex (map factorize_level [(nm, vs)])"
  have t: "tuples ?m = tuples ix"
    unfolding tuples_factorized [OF ne al] using Index
    by (simp add: map_nth_upt [of "\<lambda>v. [v]"] tuples_def)
  have m: "to_multi ix = Inr ?m"
    using from_arrays_ok [OF ne al] Index by (simp add: to_multi_def)
  have l: "len ?m = len ix" using len_factorized [OF ne al] Index by simp
  have n: "names ?m = names ix" "nlevels ?m = nlevels ix"
    using Index by (simp_all add: lv_name_factorize)
  show ?thesis using m wf_factorized [OF ne al] l t n by blast
next
  case (MultiIndex ls)
  then show ?thesis using assms by (simp add: to_multi_def)
qed

lemma stack2_ok:
  assumes "wf_index a" and "wf_index b" and "len a = len b"
  shows "\<exists>s. stack2 a b = Inr s \<and> wf_index s \<and> len s = len a
           \<and> names s = names a @ names b \<and> nlevels s = nlevels a + nlevels b
           \<and> tuples s = map (\<lambda>r. tuples a ! r @ tuples b ! r) [0..<len a]"
proof -
  obtain la where ma: "to_multi a = Inr (MultiIndex la)" "wf_index (MultiIndex la)"
      "len (MultiIndex la) = len a" "tuples (MultiIndex la) = tuples a"
      "names (MultiIndex la) = names a" "nlevels (MultiIndex la) = nlevels a"
    using to_multi_ok [OF assms(1)] by blast
  obtain lb where mb: "to_multi b = Inr (MultiIndex lb)" "wf_index (MultiIndex lb)"
      "len (MultiIndex lb) = len b" "tuples (MultiIndex lb) = tuples b"
      "names (MultiIndex lb) = names b" "nlevels (MultiIndex lb) = nlevels b"
    using to_multi_ok [OF assms(2)] by blast
  let ?arrs = "level_arrays (MultiIndex la) @ level_arrays (MultiIndex lb)"
  have ne: "?arrs \<noteq> []" using ma(2) by (simp add: level_arrays_def)
  have al: "\<forall>x\<in>set ?arrs. length (snd x) = len a"
    using wf_level_arrays [OF ma(2)] wf_level_arrays [OF mb(2)] ma(3) mb(3) assms(3) by auto
  have st: "stack2 a b = Inr (MultiIndex (map factorize_level ?arrs))"
    using ma(1) mb(1) assms(3) from_arrays_ok [OF ne al]
    by (simp add: stack2_def assert_same_shape_def index_shape_def)
  have tu: "tuples (MultiIndex (map factorize_level ?arrs)) =
        map (\<lambda>r. tuples a ! r @ tuples b ! r) [0..<len a]"
  proof -
    have "map (\<lambda>x. snd x ! r) ?arrs = tuples a ! r @ tuples b ! r" if "r < len a" for r
    proof -
      have "tuples (MultiIndex la) ! r = map (\<lambda>x. snd x ! r) (level_arrays (MultiIndex la))"
        using that ma(3) by (simp add: tuples_level_arrays)
      moreover have "tuples (MultiIndex lb) ! r = map (\<lambda>x. snd x ! r) (level_arrays (MultiIndex lb))"
        using that mb(3) assms(3) by (simp add: tuples_level_arrays)
      ultimately show ?thesis using ma(4) mb(4) by simp
    qed
    then have "map (\<lambda>r. map (\<lambda>x. snd x ! r) ?arrs) [0..<len a] =
        map (\<lambda>r. tuples a ! r @ tuples b ! r) [0..<len a]"
      by (intro map_cong) simp_all
    then show ?thesis unfolding tuples_factorized [OF ne al] .
  qed
  have nm: "names (MultiIndex (map factorize_level ?arrs)) = names a @ names b"
    using ma(5) mb(5) by (simp add: comp_def lv_name_factorize level_arrays_def)
  have nl: "nlevels (MultiIndex (map factorize_level ?arrs)) = nlevels a + nlevels b"
    using ma(6) mb(6) by (simp add: level_arrays_def)
  show ?thesis
    using st wf_factorized [OF ne al] len_factorized [OF ne al] tu nm nl by simp
qed

lemma length_tuples: "length (tuples ix) = len ix"
  by (cases ix) (simp_all add: tuples_def)

lemma tuples_row_length: "t \<in> set (tuples ix) \<Longrightarrow> length t = nlevels ix"
  by (cases ix) (auto simp: tuples_def)

lemma wf_nlevels_pos: "wf_index ix \<Longrightarrow> 0 < nlevels ix"
  by (cases ix) simp_all

lemma length_names: "length (names ix) = nlevels ix"
  by (cases ix) simp_all

lemma from_tuples_ok:
  assumes "\<forall>t\<in>set ts. length t = k" and "length ns = k" and "0 < k"
  shows "\<exists>s. from_tuples ts ns = Inr s \<and> wf_index s \<and> len s = length ts \<and> names s = ns
           \<and> nlevels s = k \<and> tuples s = ts"
proof (cases ts)
  case Nil
  let ?arrs = "map (\<lambda>n. (n, [])) ns :: (string option \<times> label list) list"
  have ne: "?arrs \<noteq> []" using assms(2,3) by auto
  have al: "\<forall>a\<in>set ?arrs. length (snd a) = 0" by auto
  have "from_tuples ts ns = Inr (MultiIndex (map factorize_level ?arrs))"
    using Nil from_arrays_ok [OF ne al] by (simp add: from_tuples_def)
  moreover have "tuples (MultiIndex (map factorize_level ?arrs)) = ts"
    unfolding tuples_factorized [OF ne al] using Nil by simp
  moreover have "names (MultiIndex (map factorize_level ?arrs)) = ns"
    by (simp add: comp_def lv_name_factorize)
  moreover have "nlevels (MultiIndex (map factorize_level ?arrs)) = k"
    using assms(2) by simp
  ultimately show ?thesis
    using wf_factorized [OF ne al] len_factorized [OF ne al] Nil by simp
next
  case (Cons t ts')
  let ?arrs = "map (\<lambda>i. (ns ! i, map (\<lambda>u. u ! i) ts)) [0..<k]"
  have lt: "length t = k" using assms(1) Cons by simp
  have ne: "?arrs \<noteq> []" using assms(3) by simp
  have al: "\<forall>a\<in>set ?arrs. length (snd a) = length ts" by auto
  have "list_all (\<lambda>u. length u = length t) ts"
    using assms(1) lt by (simp add: list_all_iff)
  then have ft: "from_tuples ts ns = Inr (MultiIndex (map factorize_level ?arrs))"
    using Cons lt assms(2) from_arrays_ok [OF ne al] by (simp add: from_tuples_def)
  have "map (\<lambda>a. snd a ! r) ?arrs = ts ! r" if "r < length ts" for r
  proof -
    have "length (ts ! r) = k" using assms(1) that by simp
    then have "map (\<lambda>i. ts ! r ! i) [0..<k] = ts ! r"
      using map_nth [of "ts ! r"] by simp
    then show ?thesis using that by (simp add: comp_def)
  qed
  then have "map (\<lambda>r. map (\<lambda>a. snd a ! r) ?arrs) [0..<length ts] = map (\<lambda>r. ts ! r) [0..<length ts]"
    by (intro map_cong) simp_all
  then have tu: "tuples (MultiIndex (map factorize_level ?arrs)) = ts"
    unfolding tuples_factorized [OF ne al] by (simp add: map_nth)
  have "map (\<lambda>i. ns ! i) [0..<k] = ns" using assms(2) map_nth [of ns] by simp
  then have nm: "names (MultiIndex (map factorize_level ?arrs)) = ns"
    by (simp add: comp_def lv_name_factorize)
  have nl: "nlevels (MultiIndex (map factorize_level ?arrs)) = k" by simp
  show ?thesis
    using ft wf_factorized [OF ne al] len_factorized [OF ne al] tu nm nl by simp
qed

lemma length_np_tile: "length (np_tile xs n) = n * length xs"
  by (induction n) (simp_all add: np_tile_def)

lemma length_np_repeat: "length (np_repeat xs n) = length xs * n"
  by (induction xs) (simp_all add: np_repeat_def)

lemma set_np_tile: "set (np_tile xs n) \<subseteq> set xs"
  by (auto simp: np_tile_def)

lemma set_np_repeat: "set (np_repeat xs n) \<subseteq> set xs"
  by (auto simp: np_repeat_def)

lemma map_np_tile: "map f (np_tile xs n) = np_tile (map f xs) n"
  by (simp add: np_tile_def map_concat)

lemma map_np_repeat: "map f (np_repeat xs n) = np_repeat (map f xs) n"
  by (simp add: np_repeat_def map_concat comp_def)

lemma rebuilt_rows_ok:
  assumes "wf_index (MultiIndex ls)" and "set ts \<subseteq> set (tuples (MultiIndex ls))"
  shows "\<exists>s. from_tuples ts (names (MultiIndex ls)) = Inr s \<and> wf_index s \<and> len s = length ts
           \<and> names s = names (MultiIndex ls) \<and> nlevels s = nlevels (MultiIndex ls)
           \<and> tuples s = ts"
proof -
  have "\<forall>t\<in>set ts. length t = nlevels (MultiIndex ls)"
    using assms(2) tuples_row_length by blast
  then show ?thesis
    using from_tuples_ok [of ts "nlevels (MultiIndex ls)" "names (MultiIndex ls)"]
      wf_nlevels_pos [OF assms(1)] length_names [of "MultiIndex ls"] by blast
qed

lemma tile_rows_ok:
  assumes "wf_index ix"
  shows "\<exists>s. tile_rows ix n = Inr s \<and> wf_index s \<and> len s = n * len ix \<and> names s = names ix
           \<and> nlevels s = nlevels ix \<and> tuples s = np_tile (tuples ix) n"
proof (cases ix)
  case (Index nm vs)
  then show ?thesis
    by (simp add: tile_rows_def tuples_def length_np_tile map_np_tile)
next
  case (MultiIndex ls)
  then show ?thesis
    using rebuilt_rows_ok [of ls "np_tile (tuples ix) n"] assms set_np_tile [of "tuples ix" n]
    by (simp add: tile_rows_def length_np_tile length_tuples del: wf_index.simps len.simps names.simps nlevels.simps)
qed

lemma repeat_rows_ok:
  assumes "wf_index ix"
  shows "\<exists>s. repeat_rows ix n = Inr s \<and> wf_index s \<and> len s = len ix * n \<and> names s = names ix
           \<and> nlevels s = nlevels ix \<and> tuples s = np_repeat (tuples ix) n"
proof (cases ix)
  case (Index nm vs)
  then show ?thesis
    by (simp add: repeat_rows_def tuples_def length_np_repeat map_np_repeat)
next
  case (MultiIndex ls)
  then show ?thesis
    using rebuilt_rows_ok [of ls "np_repeat (tuples ix) n"] assms set_np_repeat [of "tuples ix" n]
    by (simp add: repeat_rows_def length_np_repeat length_tuples del: wf_index.simps len.simps names.simps nlevels.simps)
qed

lemma stack_pair: "stack [a, b] = stack2 a b"
  by (simp add: stack_def split: sum.splits)

lemma nth_np_tile:
  assumes "i < n * length xs"
  shows "np_tile xs n ! i = xs ! (i mod length xs)"
  using assms
proof (induction n arbitrary: i)
  case 0
  then show ?case by simp
next
  case (Suc n)
  have e: "np_tile xs (Suc n) = xs @ np_tile xs n" by (simp add: np_tile_def)
  show ?case
  proof (cases "i < length xs")
    case True
    then show ?thesis by (simp add: e nth_append)
  next
    case False
    then have "i - length xs < n * length xs" using Suc.prems by simp
    from Suc.IH [OF this] False show ?thesis
      by (simp add: e nth_append le_mod_geq)
  qed
qed

lemma take_idx_ok:
  assumes "wf_index ix" and "\<forall>p\<in>set ps. p < len ix"
  shows "\<exists>s. take_idx ix ps = Inr s \<and> wf_index s \<and> len s = length ps \<and> names s = names ix
           \<and> nlevels s = nlevels ix \<and> tuples s = map (\<lambda>p. tuples ix ! p) ps"
proof (cases ix)
  case (Index nm vs)
  then show ?thesis using assms(2)
    by (simp add: take_idx_def list_all_iff tuples_def)
next
  case (MultiIndex ls)
  let ?f = "\<lambda>l. Level (lv_name l) (lv_values l) (map (\<lambda>p. lv_codes l ! p) ps)"
  have ne: "ls \<noteq> []" using assms(1) MultiIndex by simp
  have wl: "wf_level (len ix) l" if "l \<in> set ls" for l
    using assms(1) MultiIndex that by (simp add: list_all_iff)
  have t: "take_idx ix ps = Inr (MultiIndex (map ?f ls))"
    using assms(2) MultiIndex by (simp add: take_idx_def list_all_iff)
  have l: "len (MultiIndex (map ?f ls)) = length ps"
    using ne by (cases ls) simp_all
  have w: "wf_index (MultiIndex (map ?f ls))"
  proof -
    have "wf_level (length ps) (?f l')" if "l' \<in> set ls" for l'
      using wl [OF that] assms(2) by (auto simp: wf_level_def list_all_iff)
    then show ?thesis using ne l by (simp add: list_all_iff del: len.simps)
  qed
  have lab: "level_labels (?f l') = map (\<lambda>p. level_labels l' ! p) ps" if "l' \<in> set ls" for l'
    using wl [OF that] assms(2) by (simp add: level_labels_def wf_level_def)
  have "tuples (MultiIndex (map ?f ls)) ! r = map (\<lambda>p. tuples ix ! p) ps ! r"
    if "r < length ps" for r
  proof -
    have "ps ! r < len ix" using assms(2) that by simp
    then show ?thesis using that l lab MultiIndex
      by (simp add: tuples_def comp_def del: len.simps)
  qed
  then have tu: "tuples (MultiIndex (map ?f ls)) = map (\<lambda>p. tuples ix ! p) ps"
    using l by (intro nth_equalityI) (simp_all add: length_tuples)
  show ?thesis using t w l tu MultiIndex by (simp add: comp_def del: len.simps wf_index.simps)
qed

subsection \<open>stack\<close>

text \<open>
  Claim C6. For two single-level indexes of the same length \<open>n\<close>, \<^verbatim>\<open>stack(a, b)\<close>
  returns a two-level index of length \<open>n\<close>, named after the two, whose \<open>i\<close>-th row
  is the tuple \<open>(a[i], b[i])\<close>.
\<close>

theorem stack_two_single_level:
  assumes "length va = length vb"
  shows "\<exists>s. stack [Index na va, Index nb vb] = Inr s \<and> nlevels s = 2 \<and> names s = [na, nb]
           \<and> len s = length va \<and> tuples s = map (\<lambda>i. [va ! i, vb ! i]) [0..<length va]"
proof -
  have "wf_index (Index na va)" "wf_index (Index nb vb)" "len (Index na va) = len (Index nb vb)"
    using assms by simp_all
  from stack2_ok [OF this] obtain s where s: "stack2 (Index na va) (Index nb vb) = Inr s"
    "len s = length va" "names s = [na, nb]" "nlevels s = 2"
    "tuples s = map (\<lambda>r. tuples (Index na va) ! r @ tuples (Index nb vb) ! r) [0..<length va]"
    by auto
  have "map (\<lambda>r. tuples (Index na va) ! r @ tuples (Index nb vb) ! r) [0..<length va]
      = map (\<lambda>i. [va ! i, vb ! i]) [0..<length va]"
    using assms by (intro map_cong) (simp_all add: tuples_def)
  then show ?thesis using s by (simp add: stack_pair)
qed

text \<open>
  The example of the specification:
  \<^verbatim>\<open>stack(Index(['a','b']), Index(['x','y']))\<close> has the rows \<open>(a, x), (b, y)\<close>.
\<close>

theorem stack_two_single_level_witness:
  "\<exists>s. stack [Index None [LStr ''a'', LStr ''b''], Index None [LStr ''x'', LStr ''y'']] = Inr s
      \<and> nlevels s = 2 \<and> len s = 2
      \<and> tuples s = [[LStr ''a'', LStr ''x''], [LStr ''b'', LStr ''y'']]"
proof -
  have h: "length [LStr ''a'', LStr ''b''] = length [LStr ''x'', LStr ''y'']" by simp
  have u: "[0..<2] = [0, Suc 0]" by (simp add: upt_rec)
  show ?thesis
    using stack_two_single_level [OF h, of None None] by (auto simp add: u)
qed

subsection \<open>tile\<close>

lemma step_positions:
  assumes "0 < (k::nat)"
  shows "(n * k + k - 1) div k = n"
proof -
  have "k \<noteq> 0" using assms by simp
  then have "(n * k + (k - 1)) div k = n + (k - 1) div k" by (rule div_mult_self3)
  moreover have "(k - 1) div k = 0" using assms by simp
  moreover have "n * k + k - 1 = n * k + (k - 1)" using assms by simp
  ultimately show ?thesis by simp
qed

text \<open>
  Claim C4, as amended. For a non-empty index and \<open>n \<ge> 1\<close>, \<^verbatim>\<open>tile(index, n)\<close>
  has \<open>n * len(index)\<close> rows and the names of the index; its first \<open>len(index)\<close>
  rows reproduce the index (the same labels in the same order, the same names), and
  taking every \<open>len(index)\<close>-th row gives \<open>n\<close> copies of the first row of the index.
\<close>

theorem tile_blocks:
  assumes "wf_index ix" and "0 < len ix" and "1 \<le> n"
  shows "\<exists>t. tile ix n = Inr t \<and> len t = nat n * len ix \<and> names t = names ix
           \<and> (\<exists>h. slice_head t (len ix) = Inr h \<and> index_equals h ix \<and> names h = names ix)
           \<and> (\<exists>e. slice_step t (len ix) = Inr e
                  \<and> tuples e = replicate (nat n) (hd (tuples ix)))"
proof -
  let ?k = "len ix" and ?n = "nat n"
  have npos: "0 < ?n" using assms(3) by simp
  obtain t where t: "tile_rows ix ?n = Inr t" "wf_index t" "len t = ?n * ?k"
      "names t = names ix" "nlevels t = nlevels ix" "tuples t = np_tile (tuples ix) ?n"
    using tile_rows_ok [OF assms(1), of ?n] by blast
  have tl: "tile ix n = Inr t" using t(1) assms(3) by (simp add: tile_def)
  have nth_t: "tuples t ! i = tuples ix ! (i mod ?k)" if "i < ?n * ?k" for i
    using nth_np_tile [of i ?n "tuples ix"] that t(6) by (simp add: length_tuples)
  \<comment> \<open>the first block\<close>
  have mk: "min ?k (len t) = ?k" using t(3) npos by (cases ?n) simp_all
  have hp: "\<forall>p\<in>set [0..<?k]. p < len t" using t(3) npos by (cases ?n) auto
  obtain h where h: "take_idx t [0..<?k] = Inr h" "names h = names t" "nlevels h = nlevels t"
      "tuples h = map (\<lambda>p. tuples t ! p) [0..<?k]"
    using take_idx_ok [OF t(2) hp] by blast
  have "map (\<lambda>p. tuples t ! p) [0..<?k] = map (\<lambda>p. tuples ix ! p) [0..<?k]"
  proof (intro map_cong refl)
    fix p assume "p \<in> set [0..<?k]"
    then have "p < ?k" by simp
    moreover from this have "p < ?n * ?k" using npos by (cases ?n) simp_all
    ultimately show "tuples t ! p = tuples ix ! p" using nth_t [of p] by simp
  qed
  moreover have "map (\<lambda>p. tuples ix ! p) [0..<?k] = tuples ix"
    using map_nth [of "tuples ix"] by (simp only: length_tuples)
  ultimately have "tuples h = tuples ix"
    using h(4) by (simp only:)
  then have he: "slice_head t ?k = Inr h \<and> index_equals h ix \<and> names h = names ix"
    using h t(4,5) mk by (simp add: slice_head_def index_equals_def)
  \<comment> \<open>every \<open>k\<close>-th row\<close>
  let ?ps = "map (\<lambda>i. i * ?k) [0..<?n]"
  have cnt: "(len t + ?k - 1) div ?k = ?n"
    using step_positions [OF assms(2), of ?n] t(3) by simp
  have sp: "\<forall>p\<in>set ?ps. p < len t" using t(3) assms(2) by auto
  obtain e where e: "take_idx t ?ps = Inr e" "tuples e = map (\<lambda>p. tuples t ! p) ?ps"
    using take_idx_ok [OF t(2) sp] by blast
  have "map (\<lambda>p. tuples t ! p) ?ps = replicate ?n (hd (tuples ix))"
  proof (rule nth_equalityI)
    show "length (map (\<lambda>p. tuples t ! p) ?ps) = length (replicate ?n (hd (tuples ix)))"
      by simp
  next
    fix i assume "i < length (map (\<lambda>p. tuples t ! p) ?ps)"
    then have i: "i < ?n" by simp
    then have "i * ?k < ?n * ?k" using assms(2) by simp
    then have "tuples t ! (i * ?k) = tuples ix ! 0" using nth_t [of "i * ?k"] by simp
    moreover have "tuples ix ! 0 = hd (tuples ix)"
      using assms(2) by (simp add: hd_conv_nth length_tuples [symmetric])
    ultimately show "map (\<lambda>p. tuples t ! p) ?ps ! i = replicate ?n (hd (tuples ix)) ! i"
      using i by simp
  qed
  then have ee: "slice_step t ?k = Inr e \<and> tuples e = replicate ?n (hd (tuples ix))"
    using e cnt assms(2) by (simp add: slice_step_def)
  show ?thesis using tl t(3,4) he ee by blast
qed

text \<open>
  Claim C4 as stated fails: tiling \<open>[a, b]\<close> twice gives \<open>[a, b, a, b]\<close>, and every
  second element of that is \<open>[a, a]\<close>, not the index \<open>[a, b]\<close>.
\<close>

theorem tile_stride_counterexample:
  "tile (Index None [LStr ''a'', LStr ''b'']) 2
     = Inr (Index None [LStr ''a'', LStr ''b'', LStr ''a'', LStr ''b''])
   \<and> slice_step (Index None [LStr ''a'', LStr ''b'', LStr ''a'', LStr ''b''])
        (len (Index None [LStr ''a'', LStr ''b'']))
     = Inr (Index None [LStr ''a'', LStr ''a''])
   \<and> Index None [LStr ''a'', LStr ''a''] \<noteq> Index None [LStr ''a'', LStr ''b'']"
  by code_simp

theorem tile_blocks_witness:
  "\<exists>t. tile (Index None [LStr ''a'', LStr ''b'']) 2 = Inr t \<and> len t = 4
      \<and> (\<exists>h. slice_head t 2 = Inr h \<and> index_equals h (Index None [LStr ''a'', LStr ''b'']))
      \<and> (\<exists>e. slice_step t 2 = Inr e \<and> tuples e = [[LStr ''a''], [LStr ''a'']])"
proof -
  have w: "wf_index (Index None [LStr ''a'', LStr ''b''])" by simp
  have l: "0 < len (Index None [LStr ''a'', LStr ''b''])" by simp
  have n: "(1::int) \<le> 2" by simp
  show ?thesis
    using tile_blocks [OF w l n] by (auto simp add: tuples_def numeral_2_eq_2)
qed

subsection \<open>combine\<close>

lemma combine_pair: "combine [a, b] =
   (if len a = 1 then Inr b else if len b = 1 then Inr a
    else case repeat_rows a (len b) of Inl e \<Rightarrow> Inl e
      | Inr r1 \<Rightarrow> (case tile_rows b (len a) of Inl e \<Rightarrow> Inl e
          | Inr r2 \<Rightarrow> stack2 r1 r2))"
  by (simp add: combine_def stack_pair split: sum.splits)

lemma product_rows:
  assumes "length ys = n"
  shows "map (\<lambda>p. fst p @ snd p) (zip (np_repeat xs n) (np_tile ys (length xs)))
       = concat (map (\<lambda>x. map (\<lambda>y. x @ y) ys) xs)"
proof (induction xs)
  case Nil
  then show ?case by (simp add: np_repeat_def np_tile_def)
next
  case (Cons x xs)
  have r: "np_repeat (x # xs) n = replicate n x @ np_repeat xs n"
    by (simp add: np_repeat_def)
  have t: "np_tile ys (Suc (length xs)) = ys @ np_tile ys (length xs)"
    by (simp add: np_tile_def)
  have h: "map (\<lambda>p. fst p @ snd p) (zip (replicate n x) ys) = map (\<lambda>y. x @ y) ys"
    using assms by (intro nth_equalityI) simp_all
  show ?case
    using Cons.IH assms h by (simp add: r t)
qed

lemma zip_rows:
  assumes "length xs = m" and "length ys = m"
  shows "map (\<lambda>r. xs ! r @ ys ! r) [0..<m] = map (\<lambda>p. fst p @ snd p) (zip xs ys)"
  using assms by (intro nth_equalityI) simp_all

text \<open>
  Claim C1. \<^verbatim>\<open>combine(a, b)\<close> returns \<open>b\<close> unchanged when \<open>a\<close> has length 1,
  and \<open>a\<close> unchanged when \<open>b\<close> has length 1 (and \<open>a\<close> has not); otherwise it
  returns an index of length \<open>len(a) * len(b)\<close>, whose rows are the Cartesian product
  of the rows of \<open>a\<close> and \<open>b\<close>. In every case the length is \<open>len(a) * len(b)\<close>.
\<close>

theorem combine_pair_length:
  assumes "wf_index a" and "wf_index b"
  shows "(len a = 1 \<longrightarrow> combine [a, b] = Inr b)
       \<and> (len a \<noteq> 1 \<and> len b = 1 \<longrightarrow> combine [a, b] = Inr a)
       \<and> (len a \<noteq> 1 \<and> len b \<noteq> 1 \<longrightarrow>
            (\<exists>s. combine [a, b] = Inr s \<and> len s = len a * len b
                \<and> nlevels s = nlevels a + nlevels b \<and> names s = names a @ names b
                \<and> tuples s = concat (map (\<lambda>x. map (\<lambda>y. x @ y) (tuples b)) (tuples a))))
       \<and> (\<exists>s. combine [a, b] = Inr s \<and> len s = len a * len b)"
proof -
  obtain r1 where r1: "repeat_rows a (len b) = Inr r1" "wf_index r1" "len r1 = len a * len b"
      "names r1 = names a" "nlevels r1 = nlevels a" "tuples r1 = np_repeat (tuples a) (len b)"
    using repeat_rows_ok [OF assms(1), of "len b"] by blast
  obtain r2 where r2: "tile_rows b (len a) = Inr r2" "wf_index r2" "len r2 = len a * len b"
      "names r2 = names b" "nlevels r2 = nlevels b" "tuples r2 = np_tile (tuples b) (len a)"
    using tile_rows_ok [OF assms(2), of "len a"] by blast
  have eq: "len r1 = len r2" using r1(3) r2(3) by simp
  obtain s where s: "stack2 r1 r2 = Inr s" "len s = len r1" "names s = names r1 @ names r2"
      "nlevels s = nlevels r1 + nlevels r2"
      "tuples s = map (\<lambda>r. tuples r1 ! r @ tuples r2 ! r) [0..<len r1]"
    using stack2_ok [OF r1(2) r2(2) eq] by blast
  have "tuples s = map (\<lambda>p. fst p @ snd p) (zip (tuples r1) (tuples r2))"
    using s(5) zip_rows [of "tuples r1" "len r1" "tuples r2"] eq by (simp add: length_tuples)
  then have ts: "tuples s = concat (map (\<lambda>x. map (\<lambda>y. x @ y) (tuples b)) (tuples a))"
    using product_rows [of "tuples b" "len b" "tuples a"] r1(6) r2(6)
    by (simp add: length_tuples)
  have general: "len a \<noteq> 1 \<Longrightarrow> len b \<noteq> 1 \<Longrightarrow> combine [a, b] = Inr s"
    using r1(1) r2(1) s(1) by (simp add: combine_pair)
  have one_a: "len a = 1 \<Longrightarrow> combine [a, b] = Inr b" by (simp add: combine_pair)
  have one_b: "len a \<noteq> 1 \<Longrightarrow> len b = 1 \<Longrightarrow> combine [a, b] = Inr a" by (simp add: combine_pair)
  have "\<exists>s'. combine [a, b] = Inr s' \<and> len s' = len a * len b"
  proof (cases "len a = 1")
    case True
    then show ?thesis using one_a by simp
  next
    case False
    show ?thesis
    proof (cases "len b = 1")
      case True
      then show ?thesis using one_b [OF False] by simp
    next
      case False
      then show ?thesis using general [OF \<open>len a \<noteq> 1\<close>] s(2) r1(3) by simp
    qed
  qed
  then show ?thesis
    using one_a one_b general s(2,3,4) r1(3,4,5) r2(4,5) ts by auto
qed

text \<open>
  The example of the specification, \<^verbatim>\<open>combine(Index(['a']), Index(['x','y']))\<close>,
  its mirror image, and a product of two by three rows.
\<close>

theorem combine_pair_length_witness:
  "combine [Index None [LStr ''a''], Index None [LStr ''x'', LStr ''y'']]
     = Inr (Index None [LStr ''x'', LStr ''y''])
   \<and> combine [Index None [LStr ''x'', LStr ''y''], Index None [LStr ''a'']]
     = Inr (Index None [LStr ''x'', LStr ''y''])
   \<and> (\<exists>s. combine [Index None [LStr ''a'', LStr ''b''], Index None [LInt 1, LInt 2, LInt 3]]
          = Inr s \<and> len s = 6
        \<and> tuples s = [[LStr ''a'', LInt 1], [LStr ''a'', LInt 2], [LStr ''a'', LInt 3],
                      [LStr ''b'', LInt 1], [LStr ''b'', LInt 2], [LStr ''b'', LInt 3]])"
proof -
  let ?a = "Index None [LStr ''a'']" and ?xy = "Index None [LStr ''x'', LStr ''y'']"
  let ?ab = "Index None [LStr ''a'', LStr ''b'']" and ?n = "Index None [LInt 1, LInt 2, LInt 3]"
  have w: "wf_index ?a" "wf_index ?xy" "wf_index ?ab" "wf_index ?n" by simp_all
  have one: "combine [?a, ?xy] = Inr ?xy"
    using combine_pair_length [OF w(1) w(2)] by simp
  have two: "combine [?xy, ?a] = Inr ?xy"
    using combine_pair_length [OF w(2) w(1)] by simp
  have ta: "tuples ?ab = [[LStr ''a''], [LStr ''b'']]"
    and tn: "tuples ?n = [[LInt 1], [LInt 2], [LInt 3]]"
    by (simp_all add: tuples_def)
  have "len ?ab \<noteq> 1 \<and> len ?n \<noteq> 1" by simp
  then obtain s where s: "combine [?ab, ?n] = Inr s" "len s = len ?ab * len ?n"
      "tuples s = concat (map (\<lambda>x. map (\<lambda>y. x @ y) (tuples ?n)) (tuples ?ab))"
    using combine_pair_length [OF w(3) w(4)] by blast
  have "len s = 6" using s(2) by simp
  moreover have "tuples s = [[LStr ''a'', LInt 1], [LStr ''a'', LInt 2], [LStr ''a'', LInt 3],
                      [LStr ''b'', LInt 1], [LStr ''b'', LInt 2], [LStr ''b'', LInt 3]]"
    using s(3) by (simp add: ta tn)
  ultimately show ?thesis using one two s(1) by blast
qed

subsection \<open>drop_redundant_levels\<close>

lemma enumerate_fst_inj:
  assumes "p \<in> set (enumerate n ls)" and "q \<in> set (enumerate n ls)" and "fst p = fst q"
  shows "p = q"
  using assms by (auto simp: in_set_enumerate_eq prod_eq_iff)

lemma dropped_iff:
  assumes "p \<in> set (enumerate n ls)"
  shows "fst p \<in> set (map fst (filter (\<lambda>q. P (snd q)) (enumerate n ls))) \<longleftrightarrow> P (snd p)"
proof
  assume "fst p \<in> set (map fst (filter (\<lambda>q. P (snd q)) (enumerate n ls)))"
  then obtain q where q: "q \<in> set (enumerate n ls)" "P (snd q)" "fst q = fst p" by auto
  then have "q = p" using enumerate_fst_inj [OF q(1) assms] by simp
  then show "P (snd p)" using q(2) by simp
next
  assume "P (snd p)"
  then show "fst p \<in> set (map fst (filter (\<lambda>q. P (snd q)) (enumerate n ls)))"
    using assms by force
qed

lemma kept_levels:
  "map snd (filter (\<lambda>p. fst p \<notin> set (levels_to_drop ls)) (enumerate 0 ls))
     = filter (\<lambda>l. \<not> redundant l) ls"
proof -
  have "filter (\<lambda>p. fst p \<notin> set (levels_to_drop ls)) (enumerate 0 ls)
      = filter (\<lambda>p. \<not> redundant (snd p)) (enumerate 0 ls)"
    unfolding levels_to_drop_def
    by (rule filter_cong [OF refl]) (simp only: dropped_iff)
  then have "map snd (filter (\<lambda>p. fst p \<notin> set (levels_to_drop ls)) (enumerate 0 ls))
      = filter (\<lambda>l. \<not> redundant l) (map snd (enumerate 0 ls))"
    by (simp only: filter_map comp_def)
  then show ?thesis by simp
qed

lemma length_levels_to_drop: "length (levels_to_drop ls) = length (filter redundant ls)"
proof -
  have "length (filter (\<lambda>p. redundant (snd p)) (enumerate 0 ls))
      = length (filter redundant (map snd (enumerate 0 ls)))"
    by (simp only: filter_map comp_def length_map)
  then show ?thesis by (simp add: levels_to_drop_def)
qed

text \<open>
  Claim C5, as amended. Take a MultiIndex of a length other than 1 in which every
  level but one has exactly one value. If that one level is not an unnamed literal
  range \<open>0, 1, 2, ...\<close> as long as the index, \<^verbatim>\<open>drop_redundant_levels\<close> returns a
  single-level index: the labels of that level, under its name.
\<close>

theorem drop_redundant_leaves_one:
  assumes "len (MultiIndex (pre @ l # post)) \<noteq> 1"
    and "\<forall>l'\<in>set (pre @ post). length (lv_values l') = 1"
    and "length (lv_values l) \<noteq> 1"
    and "\<not> (lv_name l = None \<and> basic_range (lv_values l)
            \<and> length (level_labels l) = length (lv_values l))"
  shows "drop_redundant_levels (MultiIndex (pre @ l # post))
           = Inr (Index (lv_name l) (level_labels l))"
proof -
  let ?ls = "pre @ l # post"
  have red: "redundant l'" if "l' \<in> set (pre @ post)" for l'
    using assms(2) that by (simp add: redundant_def)
  have nred: "\<not> redundant l" using assms(3,4) by (auto simp: redundant_def)
  have fp: "filter redundant pre = pre" "filter redundant post = post"
    using red by (simp_all add: filter_id_conv)
  have np: "filter (\<lambda>l. \<not> redundant l) pre = []" "filter (\<lambda>l. \<not> redundant l) post = []"
    using red by (simp_all add: filter_empty_conv)
  have cnt: "length (levels_to_drop ?ls) < length ?ls"
    using fp nred by (simp add: length_levels_to_drop)
  have kept: "map snd (filter (\<lambda>p. fst p \<notin> set (levels_to_drop ?ls)) (enumerate 0 ?ls)) = [l]"
    using np nred by (simp add: kept_levels)
  have "droplevel ?ls (levels_to_drop ?ls) = Inr (get_level_values l)"
    using cnt by (simp add: droplevel_def kept del: enumerate_simps)
  then show ?thesis
    using assms(1) cnt by (simp add: drop_redundant_levels_def get_level_values_def)
qed

theorem drop_redundant_leaves_one_witness:
  "drop_redundant_levels
     (MultiIndex [Level (Some ''k'') [LInt 0, LInt 1, LInt 2] [0, 1, 2],
                  Level None [LStr ''a''] [0, 0, 0]])
   = Inr (Index (Some ''k'') [LInt 0, LInt 1, LInt 2])"
proof -
  let ?l = "Level (Some ''k'') [LInt 0, LInt 1, LInt 2] [0, 1, 2]"
  let ?post = "[Level None [LStr ''a''] [0, 0, 0]]"
  have 1: "len (MultiIndex ([] @ ?l # ?post)) \<noteq> 1" by simp
  have 2: "\<forall>l'\<in>set ([] @ ?post). length (lv_values l') = 1" by simp
  have 3: "length (lv_values ?l) \<noteq> 1" by simp
  have 4: "\<not> (lv_name ?l = None \<and> basic_range (lv_values ?l)
            \<and> length (level_labels ?l) = length (lv_values ?l))" by simp
  show ?thesis
    using drop_redundant_leaves_one [OF 1 2 3 4] by (simp add: level_labels_def)
qed

text \<open>
  Claim C5 as stated fails. The first level below is the only one with more than one
  value, but it is an unnamed range matching the row positions, which the function
  counts as redundant too; with no level left to keep, it returns the index as it is,
  with both levels.
\<close>

theorem drop_redundant_range_counterexample:
  "drop_redundant_levels
     (MultiIndex [Level None [LInt 0, LInt 1, LInt 2] [0, 1, 2],
                  Level None [LStr ''a''] [0, 0, 0]])
   = Inr (MultiIndex [Level None [LInt 0, LInt 1, LInt 2] [0, 1, 2],
                      Level None [LStr ''a''] [0, 0, 0]])
   \<and> wf_index (MultiIndex [Level None [LInt 0, LInt 1, LInt 2] [0, 1, 2],
                           Level None [LStr ''a''] [0, 0, 0]])
   \<and> length (lv_values (Level None [LInt 0, LInt 1, LInt 2] [0, 1, 2])) = 3
   \<and> length (lv_values (Level None [LStr ''a''] [0, 0, 0])) = 1"
  by code_simp

text \<open>
  An index of one row is returned as it is, whatever its levels hold (here the level
  \<open>k\<close> keeps a value that the one row does not use).
\<close>

lemma drop_redundant_single_row:
  "drop_redundant_levels
     (MultiIndex [Level (Some ''k'') [LInt 5, LInt 7] [1], Level None [LStr ''a''] [0]])
   = Inr (MultiIndex [Level (Some ''k'') [LInt 5, LInt 7] [1], Level None [LStr ''a''] [0]])"
  by code_simp

subsection \<open>align_to\<close>

lemma to_multi_total:
  "\<exists>m. to_multi ix = Inr m \<and> len m = len ix \<and> tuples m = tuples ix \<and> nlevels m = nlevels ix"
proof (cases ix)
  case (Index nm vs)
  then have "wf_index ix" by simp
  from to_multi_ok [OF this] show ?thesis by blast
next
  case (MultiIndex ls)
  then show ?thesis by (simp add: to_multi_def)
qed

text \<open>
  Claim C3. When the first index has a duplicated row, \<^verbatim>\<open>align_to\<close> raises
  ValueError, whatever the second index is (the first index itself included).
\<close>

theorem align_to_duplicates_raise:
  assumes "duplicated_any a"
  shows "align_to a b = Inl ValueError"
proof -
  obtain m1 where m1: "to_multi a = Inr m1" "tuples m1 = tuples a"
    using to_multi_total [of a] by blast
  obtain m2 where m2: "to_multi b = Inr m2"
    using to_multi_total [of b] by blast
  have "duplicated_any m1" using assms m1(2) by (simp add: duplicated_any_def)
  then show ?thesis using m1(1) m2 by (simp add: align_to_def)
qed

theorem align_to_duplicates_raise_witness:
  "align_to (Index None [LInt 1, LInt 2, LInt 1]) (Index None [LInt 1, LInt 2, LInt 1])
     = Inl ValueError
   \<and> align_to (Index None [LInt 1, LInt 2, LInt 1])
        (MultiIndex [Level None [LInt 1, LInt 2] [0, 1, 1, 0], Level (Some ''m'') [LStr ''u''] [0, 0, 0, 0]])
     = Inl ValueError"
proof -
  have d: "duplicated_any (Index None [LInt 1, LInt 2, LInt 1])"
    by (simp add: duplicated_any_def tuples_def)
  show ?thesis
    using align_to_duplicates_raise [OF d] by simp
qed

text \<open>
  Claim C2, as amended. When the first index has no duplicated row and the second
  equals it (as many levels, the same labels in the same order), \<^verbatim>\<open>align_to\<close>
  returns the slice that selects every row in its order.
\<close>

theorem align_to_equal_identity:
  assumes "\<not> duplicated_any a" and "index_equals a b"
  shows "align_to a b = Inr SliceAll"
proof -
  obtain m1 where m1: "to_multi a = Inr m1" "tuples m1 = tuples a" "nlevels m1 = nlevels a"
    using to_multi_total [of a] by blast
  obtain m2 where m2: "to_multi b = Inr m2" "tuples m2 = tuples b" "nlevels m2 = nlevels b"
    using to_multi_total [of b] by blast
  have "\<not> duplicated_any m1" using assms(1) m1(2) by (simp add: duplicated_any_def)
  moreover have "index_equals m1 m2"
    using assms(2) m1(2,3) m2(2,3) by (simp add: index_equals_def)
  ultimately show ?thesis using m1(1) m2(1) by (simp add: align_to_def)
qed

theorem align_to_equal_identity_witness:
  "align_to (Index None [LStr ''x'', LStr ''y'']) (Index (Some ''k'') [LStr ''x'', LStr ''y''])
     = Inr SliceAll"
proof -
  have 1: "\<not> duplicated_any (Index None [LStr ''x'', LStr ''y''])"
    by (simp add: duplicated_any_def tuples_def)
  have 2: "index_equals (Index None [LStr ''x'', LStr ''y'']) (Index (Some ''k'') [LStr ''x'', LStr ''y''])"
    by (simp add: index_equals_def tuples_def)
  show ?thesis using align_to_equal_identity [OF 1 2] .
qed

text \<open>
  Claim C2 as stated fails for an index with a duplicated label: aligned to itself, it
  raises ValueError, since the check for duplicates comes first.
\<close>

theorem align_to_equal_counterexample:
  "index_equals (Index None [LStr ''x'', LStr ''x'']) (Index None [LStr ''x'', LStr ''x''])
   \<and> align_to (Index None [LStr ''x'', LStr ''x'']) (Index None [LStr ''x'', LStr ''x''])
       = Inl ValueError"
  by code_simp

text \<open>
  Beyond the two exits the claims are about: an index of two rows aligned to a longer
  one that repeats its labels, and an index of one row, where
  \<^verbatim>\<open>np.tile([0])\<close> lacks its second argument and raises TypeError.
\<close>

lemma align_tail_demo:
  "align_to (Index (Some ''k'') [LStr ''y'', LStr ''x''])
     (MultiIndex [Level (Some ''k'') [LStr ''x'', LStr ''y''] [0, 0, 1, 1],
                  Level (Some ''m'') [LInt 1, LInt 2] [0, 1, 0, 1]])
   = Inr (Positions [1, 1, 0, 0])"
  by code_simp

lemma align_single_row:
  "align_to (Index None [LStr ''x'']) (Index None [LStr ''x'', LStr ''y'']) = Inl TypeError"
  by code_simp

section \<open>Properties of the chart widgets\<close>

subsection \<open>Rounding to a double\<close>

lemma round_half_even_of_int: "round_half_even (of_int k) = k"
  by (simp add: round_half_even_def)

lemma round_half_even_cases:
  "round_half_even x = \<lfloor>x\<rfloor> \<or> round_half_even x = \<lfloor>x\<rfloor> + 1"
  by (simp add: round_half_even_def Let_def)

lemma round_half_even_nonzero:
  assumes "1 \<le> \<bar>x\<bar>"
  shows "round_half_even x \<noteq> 0"
proof (cases "0 \<le> x")
  case True
  then have "1 \<le> x" using assms by simp
  then have "1 \<le> \<lfloor>x\<rfloor>" by (simp only: le_floor_iff of_int_1)
  then show ?thesis using round_half_even_cases [of x] by linarith
next
  case False
  then have x: "x \<le> - 1" using assms by simp
  then have f: "\<lfloor>x\<rfloor> \<le> - 1" by (simp add: floor_le_iff)
  show ?thesis
  proof (cases "\<lfloor>x\<rfloor> = - 1")
    case True
    then have "- 1 \<le> x" using of_int_floor_le [of x] by simp
    then have "x = of_int (- 1)" using x by simp
    then have "round_half_even x = - 1" by (simp only: round_half_even_of_int)
    then show ?thesis by simp
  next
    case False
    then have "\<lfloor>x\<rfloor> \<le> - 2" using f by linarith
    then show ?thesis using round_half_even_cases [of x] by linarith
  qed
qed

lemma round_double_zero: "round_double 0 = Finite 0"
proof -
  have "\<not> (2::real) ^ max_exp \<le> 0" by (simp add: not_le)
  then show ?thesis
    by (simp add: round_double_def round_half_even_def)
qed

lemma bitlen_le:
  assumes "0 < a" and "a < 2 ^ m"
  shows "bitlen a \<le> int m"
proof -
  have "(2::int) ^ nat (bitlen a - 1) \<le> a" using bitlen_bounds [OF assms(1)] by simp
  then have "(2::int) ^ nat (bitlen a - 1) < 2 ^ m" using assms(2) by (rule le_less_trans)
  then have "nat (bitlen a - 1) < m" by (simp only: power_strict_increasing_iff semiring_norm)
  then show ?thesis by simp
qed

lemma bitlen_eq:
  assumes "2 ^ m \<le> a" and "a < 2 ^ Suc m"
  shows "bitlen a = int (Suc m)"
proof -
  have pos: "0 < a" using assms(1) by (meson less_le_trans zero_less_numeral zero_less_power)
  have up: "bitlen a \<le> int (Suc m)" using bitlen_le [OF pos assms(2)] .
  have "a < 2 ^ nat (bitlen a)" using bitlen_bounds [OF pos] by simp
  with assms(1) have "(2::int) ^ m < 2 ^ nat (bitlen a)" by (rule le_less_trans)
  then have "m < nat (bitlen a)"
    by (simp only: power_strict_increasing_iff semiring_norm)
  then show ?thesis using up by simp
qed

lemma scaled_unit:
  fixes i :: int
  assumes "k \<le> u"
  shows "(of_int i / 2 ^ k) * 2 ^ u = (of_int (i * 2 ^ (u - k)) :: real)"
proof -
  have "(2::real) ^ u = 2 ^ (u - k) * 2 ^ k"
    using assms by (simp add: power_add [symmetric])
  then show ?thesis by simp
qed

lemma abs_div_pow2_le: "\<bar>x / 2 ^ k\<bar> \<le> \<bar>x :: real\<bar>"
proof -
  have c: "(1::real) \<le> 2 ^ k" by simp
  have "\<bar>x\<bar> * 1 \<le> \<bar>x\<bar> * 2 ^ k" by (rule mult_left_mono [OF c]) simp
  then show ?thesis by (simp add: divide_le_eq)
qed

lemma round_double_dyadic:
  assumes "\<bar>i\<bar> < 2 ^ 53" and "k \<le> unit_exp"
  shows "round_double (of_int i / 2 ^ k) = Finite (of_int i / 2 ^ k)"
proof (cases "i = 0")
  case True
  then show ?thesis by (simp add: round_double_zero)
next
  case False
  define t where "t = unit_exp - k"
  define j where "j = i * 2 ^ t"
  define s where "s = nat (bitlen \<bar>j\<bar> - 53)"
  have pos: "0 < \<bar>i\<bar>" using False by simp
  have n: "(of_int i / 2 ^ k) * 2 ^ unit_exp = (of_int j :: real)"
    unfolding j_def t_def by (rule scaled_unit [OF assms(2)])
  have aj: "\<bar>j\<bar> = \<bar>i\<bar> * 2 ^ t" by (simp add: j_def abs_mult)
  have bl: "bitlen \<bar>j\<bar> = bitlen \<bar>i\<bar> + int t"
    unfolding aj using pos by (rule bitlen_pow2)
  have b53: "bitlen \<bar>i\<bar> \<le> 53" using bitlen_le [OF pos assms(1)] by simp
  have st: "s \<le> t" using bl b53 by (simp add: s_def)
  have js: "j = (i * 2 ^ (t - s)) * 2 ^ s"
    using st by (simp add: j_def power_add [symmetric])
  have q: "(of_int j :: real) / 2 ^ s = of_int (i * 2 ^ (t - s))"
    by (subst js) simp
  have r: "round_half_even (of_int j / 2 ^ s) = i * 2 ^ (t - s)"
    by (simp only: q round_half_even_of_int)
  have "of_int (i * 2 ^ (t - s)) * 2 ^ s = (of_int j :: real)" by (subst js) simp
  moreover have "(of_int j :: real) / 2 ^ unit_exp = of_int i / 2 ^ k"
  proof -
    have "(of_int j :: real) / 2 ^ unit_exp = ((of_int i / 2 ^ k) * 2 ^ unit_exp) / 2 ^ unit_exp"
      by (simp only: n)
    also have "\<dots> = of_int i / 2 ^ k" by simp
    finally show ?thesis .
  qed
  ultimately have y: "of_int (i * 2 ^ (t - s)) * 2 ^ s / 2 ^ unit_exp = (of_int i / 2 ^ k :: real)"
    by (simp only:)
  have "\<bar>of_int i / 2 ^ k :: real\<bar> \<le> \<bar>of_int i\<bar>" by (rule abs_div_pow2_le)
  moreover have "\<bar>of_int i :: real\<bar> < 2 ^ 53"
  proof -
    have "(of_int \<bar>i\<bar> :: real) < of_int (2 ^ 53)" using assms(1) by (simp only: of_int_less_iff)
    then show ?thesis by simp
  qed
  moreover have "(2::real) ^ 53 < 2 ^ max_exp" by (simp add: max_exp_def)
  ultimately have bound: "\<bar>of_int i / 2 ^ k :: real\<bar> < 2 ^ max_exp" by linarith
  have f: "\<lfloor>\<bar>of_int j :: real\<bar>\<rfloor> = \<bar>j\<bar>"
    by (simp only: of_int_abs [symmetric] floor_of_int)
  have "round_double (of_int i / 2 ^ k)
      = (let y = of_int (round_half_even (of_int j / 2 ^ s)) * 2 ^ s / 2 ^ unit_exp :: real
         in if y \<ge> 2 ^ max_exp then PosInf else if y \<le> - (2 ^ max_exp) then NegInf
            else Finite y)"
    unfolding round_double_def Let_def n f s_def ..
  also have "\<dots> = Finite (of_int i / 2 ^ k)"
  proof -
    have "\<not> 2 ^ max_exp \<le> (of_int i / 2 ^ k :: real)"
      and "\<not> (of_int i / 2 ^ k :: real) \<le> - (2 ^ max_exp)"
      using bound unfolding abs_less_iff by linarith+
    then show ?thesis unfolding Let_def r y by (simp only: if_False)
  qed
  finally show ?thesis .
qed

lemma round_double_int_big:
  assumes "bitlen \<bar>i\<bar> = 53 + int s"
  shows "round_double (of_int i) =
     (let y = of_int (round_half_even (of_int i / 2 ^ s)) * 2 ^ s :: real
      in if y \<ge> 2 ^ max_exp then PosInf else if y \<le> - (2 ^ max_exp) then NegInf
         else Finite y)"
proof -
  have pos: "0 < \<bar>i\<bar>" using assms bitlen_eq_zero_iff [of "\<bar>i\<bar>"] by (cases "i = 0") auto
  have n: "(of_int i :: real) * 2 ^ unit_exp = of_int (i * 2 ^ unit_exp)" by simp
  have "bitlen \<bar>i * 2 ^ unit_exp\<bar> = bitlen \<bar>i\<bar> + int unit_exp"
    unfolding abs_mult using pos bitlen_pow2 [of "\<bar>i\<bar>" unit_exp] by simp
  then have s: "nat (bitlen \<bar>i * 2 ^ unit_exp\<bar> - 53) = s + unit_exp" using assms by simp
  have q: "(of_int (i * 2 ^ unit_exp) :: real) / 2 ^ (s + unit_exp) = of_int i / 2 ^ s"
    by (simp add: power_add)
  have y: "of_int m * 2 ^ (s + unit_exp) / 2 ^ unit_exp = (of_int m * 2 ^ s :: real)" for m :: int
    by (simp add: power_add)
  have f: "\<lfloor>\<bar>of_int (i * 2 ^ unit_exp) :: real\<bar>\<rfloor> = \<bar>i * 2 ^ unit_exp\<bar>"
    by (simp only: of_int_abs [symmetric] floor_of_int)
  show ?thesis
    unfolding round_double_def Let_def n f s q y ..
qed

lemma round_double_nonzero:
  assumes "x * 2 ^ unit_exp = of_int j" and "j \<noteq> 0"
  shows "round_double x \<noteq> Finite 0"
proof -
  define s where "s = nat (bitlen \<bar>j\<bar> - 53)"
  define m where "m = round_half_even (of_int j / 2 ^ s)"
  have pos: "0 < \<bar>j\<bar>" using assms(2) by simp
  have lower: "(2::int) ^ nat (bitlen \<bar>j\<bar> - 1) \<le> \<bar>j\<bar>" using bitlen_bounds [OF pos] by simp
  have "s \<le> nat (bitlen \<bar>j\<bar> - 1)" by (simp add: s_def)
  then have "(2::int) ^ s \<le> 2 ^ nat (bitlen \<bar>j\<bar> - 1)" by (simp add: power_increasing)
  then have "(2::int) ^ s \<le> \<bar>j\<bar>" using lower by linarith
  then have "(of_int (2 ^ s) :: real) \<le> of_int \<bar>j\<bar>" by (simp only: of_int_le_iff)
  then have "(2::real) ^ s \<le> \<bar>of_int j\<bar>" by simp
  then have "1 \<le> \<bar>of_int j / 2 ^ s :: real\<bar>" by (simp add: le_divide_eq)
  then have m0: "m \<noteq> 0" unfolding m_def by (rule round_half_even_nonzero)
  have f: "\<lfloor>\<bar>of_int j :: real\<bar>\<rfloor> = \<bar>j\<bar>"
    by (simp only: of_int_abs [symmetric] floor_of_int)
  have e: "round_double x
      = (let y = of_int m * 2 ^ s / 2 ^ unit_exp :: real
         in if y \<ge> 2 ^ max_exp then PosInf else if y \<le> - (2 ^ max_exp) then NegInf
            else Finite y)"
    unfolding round_double_def Let_def assms(1) f s_def m_def ..
  have "of_int m * 2 ^ s / 2 ^ unit_exp \<noteq> (0::real)" using m0 by simp
  then show ?thesis unfolding e Let_def by auto
qed

lemma is_double_scaled:
  assumes "is_double x"
  shows "\<exists>j. x * 2 ^ unit_exp = of_int j"
proof -
  define s where "s = nat (bitlen \<lfloor>\<bar>x * 2 ^ unit_exp\<bar>\<rfloor> - 53)"
  define m where "m = round_half_even (x * 2 ^ unit_exp / 2 ^ s)"
  have "round_double x
      = (let y = of_int m * 2 ^ s / 2 ^ unit_exp :: real
         in if y \<ge> 2 ^ max_exp then PosInf else if y \<le> - (2 ^ max_exp) then NegInf
            else Finite y)"
    unfolding round_double_def Let_def s_def m_def ..
  then have "x = of_int m * 2 ^ s / 2 ^ unit_exp"
    using assms unfolding is_double_def Let_def by (auto split: if_splits)
  then have "x * 2 ^ unit_exp = of_int (m * 2 ^ s)" by simp
  then show ?thesis ..
qed

lemma float_sub_nonzero:
  assumes "is_double a" and "is_double b" and "a \<noteq> b"
  shows "float_sub (Finite b) (Finite a) \<noteq> Finite 0"
proof -
  obtain ja jb where j: "a * 2 ^ unit_exp = of_int ja" "b * 2 ^ unit_exp = of_int jb"
    using is_double_scaled [OF assms(1)] is_double_scaled [OF assms(2)] by blast
  have eq: "(b - a) * 2 ^ unit_exp = of_int (jb - ja)" using j by (simp add: algebra_simps)
  have ne: "jb - ja \<noteq> 0"
  proof
    assume "jb - ja = 0"
    then have "a * 2 ^ unit_exp = b * 2 ^ unit_exp" using j by simp
    then show False using assms(3) by simp
  qed
  show ?thesis using round_double_nonzero [OF eq ne] by simp
qed

text \<open>The values the examples need, and the widget the constructor builds.\<close>

lemma round_double_255: "round_double 255 = Finite 255"
  using round_double_dyadic [of 255 0] by (simp add: unit_exp_def)

lemma round_double_1: "round_double 1 = Finite 1"
  using round_double_dyadic [of 1 0] by (simp add: unit_exp_def)

lemma round_double_2: "round_double 2 = Finite 2"
  using round_double_dyadic [of 2 0] by (simp add: unit_exp_def)

lemma round_double_5: "round_double 5 = Finite 5"
  using round_double_dyadic [of 5 0] by (simp add: unit_exp_def)

lemma round_double_half: "round_double (1 / 2) = Finite (1 / 2)"
  using round_double_dyadic [of 1 1] by (simp add: unit_exp_def)

lemma round_double_2_53: "round_double 9007199254740992 = Finite 9007199254740992"
proof -
  have b: "bitlen \<bar>9007199254740992\<bar> = 53 + int 1"
    using bitlen_eq [of 53 9007199254740992] by simp
  have r: "round_half_even (real_of_int 9007199254740992 / 2 ^ (1::nat)) = 4503599627370496"
    by (simp add: round_half_even_def)
  note e = round_double_int_big [OF b, unfolded r Let_def]
  show ?thesis
    using e by (simp add: max_exp_def)
qed

lemma round_double_2_53_1: "round_double 9007199254740993 = Finite 9007199254740992"
proof -
  have b: "bitlen \<bar>9007199254740993\<bar> = 53 + int 1"
    using bitlen_eq [of 53 9007199254740993] by simp
  have r: "round_half_even (real_of_int 9007199254740993 / 2 ^ (1::nat)) = 4503599627370496"
    by (simp add: round_half_even_def)
  note e = round_double_int_big [OF b, unfolded r Let_def]
  show ?thesis
    using e by (simp add: max_exp_def)
qed

lemma show_255: "show_int 255 = ''255''" and show_0: "show_int 0 = ''0''"
  by code_simp+

lemma component_1: "component (Finite 1) = Inr ''255''"
  by (simp add: component_def round_double_255 round_half_even_def show_255)

lemma component_0: "component (Finite 0) = Inr ''0''"
  by (simp add: component_def round_double_zero round_half_even_def show_0)

lemma example_init:
  "Indicator_init example_cmaps None None None (Some ''Spectral'') (\<lambda>t. t) []
     = Inr example_indicator"
  by (simp add: Indicator_init_def example_indicator_def)

lemmas eval_update = Let_def Indicator_update_data_def assert_type_number_def rgb_from_cmap_def
  norm_value_def py_eq_def py_lt_def py_min_def py_max_def py_sub_def py_truediv_def
  to_float_def example_cmaps_def example_indicator_def component_1 component_0
  round_double_zero round_double_1 round_double_2 round_double_5 round_double_half
  round_double_2_53 round_double_2_53_1

subsection \<open>The colour of the gauge\<close>

text \<open>
  Where the guard of \<^verbatim>\<open>rgb_from_cmap\<close> does its work: a range with equal ends
  gives 0.5 without dividing, and a range of two ints or of two finite floats never
  divides by zero.
\<close>

lemma norm_value_degenerate:
  "py_eq (fst rng) (snd rng) \<Longrightarrow> norm_value v rng = Inr (Finite (1 / 2))"
  by (simp add: norm_value_def)

lemma norm_value_ints:
  "norm_value (PyInt v) (PyInt lo, PyInt hi) \<noteq> Inl ZeroDivisionError"
  by (auto simp: norm_value_def py_eq_def py_sub_def py_truediv_def split: pyfloat.splits)

lemma norm_value_floats:
  assumes "is_double a" and "is_double b"
  shows "norm_value v (PyFloat (Finite a), PyFloat (Finite b)) \<noteq> Inl ZeroDivisionError"
proof (cases "a = b")
  case True
  then show ?thesis by (simp add: norm_value_def py_eq_def)
next
  case False
  have nz: "float_sub (Finite b) (Finite a) \<noteq> Finite 0"
    using float_sub_nonzero [OF assms False] .
  have hi: "py_sub (PyFloat (Finite b)) (PyFloat (Finite a))
      = Inr (PyFloat (float_sub (Finite b) (Finite a)))"
    by (simp add: py_sub_def to_float_def)
  have "py_truediv x (PyFloat (float_sub (Finite b) (Finite a))) \<noteq> Inl ZeroDivisionError" for x
    using nz by (cases x) (auto simp: py_truediv_def to_float_def split: sum.splits pyfloat.splits)
  moreover have "py_sub v (PyFloat (Finite a)) \<noteq> Inl ZeroDivisionError"
    by (cases v) (auto simp: py_sub_def to_float_def split: sum.splits pyfloat.splits)
  ultimately show ?thesis
    using False hi by (auto simp: norm_value_def py_eq_def split: sum.splits)
qed

text \<open>
  Claim C10 says that \<^verbatim>\<open>rgb_from_cmap\<close> never divides by zero, since a range
  with equal ends gives 0.5 without dividing. The code does not keep that for a range
  that mixes a float and an int: 9007199254740992.0 (2 to the power 53) and the int
  9007199254740993 are not equal, so the guard lets them through, but the int is
  rounded to the float 9007199254740992.0 before the subtraction, the divisor is 0.0
  and the division raises ZeroDivisionError. \<^verbatim>\<open>update_data\<close> builds this range itself from the two
  values, and its second call raises.
\<close>

theorem update_data_zero_division:
  "is_double 9007199254740992
   \<and> snd (Indicator_update_data example_cmaps (Number (PyInt 9007199254740993))
        example_indicator)
     = None
   \<and> value_range (update_all example_cmaps
        [PyInt 9007199254740993, PyFloat (Finite 9007199254740992)] example_indicator)
     = Some (PyFloat (Finite 9007199254740992), PyInt 9007199254740993)
   \<and> snd (Indicator_update_data example_cmaps (Number (PyFloat (Finite 9007199254740992)))
        (update_all example_cmaps [PyInt 9007199254740993] example_indicator))
     = Some ZeroDivisionError
   \<and> py_eq (PyFloat (Finite 9007199254740992)) (PyInt 9007199254740993) = False
   \<and> py_sub (PyInt 9007199254740993) (PyFloat (Finite 9007199254740992))
     = Inr (PyFloat (Finite 0))
   \<and> norm_value (PyFloat (Finite 9007199254740992))
        (PyFloat (Finite 9007199254740992), PyInt 9007199254740993)
     = Inl ZeroDivisionError
   \<and> rgb_from_cmap example_cmaps ''Spectral'' (PyFloat (Finite 9007199254740992))
        (PyFloat (Finite 9007199254740992), PyInt 9007199254740993)
     = Inl ZeroDivisionError"
  by (simp add: eval_update is_double_def)

subsection \<open>The range of an Indicator\<close>

lemma py_le_refl: "\<not> is_nan a \<Longrightarrow> py_le a a"
  by (simp add: py_le_def)

lemma py_le_trans: "py_le a b \<Longrightarrow> py_le b c \<Longrightarrow> py_le a c"
  by (auto simp: py_le_def split: if_splits)

lemma py_le_not_nan: "py_le a b \<Longrightarrow> \<not> is_nan a \<and> \<not> is_nan b"
  by (auto simp: py_le_def split: if_splits)

lemma py_min_props:
  assumes "\<not> is_nan a" and "\<not> is_nan b"
  shows "\<not> is_nan (py_min a b)" and "py_le (py_min a b) a" and "py_le (py_min a b) b"
    and "num_key (py_min a b) = min (num_key a) (num_key b)"
  using assms by (auto simp: py_min_def py_lt_def py_le_def min_def)

lemma py_max_props:
  assumes "\<not> is_nan a" and "\<not> is_nan b"
  shows "\<not> is_nan (py_max a b)" and "py_le a (py_max a b)" and "py_le b (py_max a b)"
    and "num_key (py_max a b) = max (num_key a) (num_key b)"
  using assms by (auto simp: py_max_def py_lt_def py_le_def max_def)

lemma value_range_after_update:
  "value_range (fst (Indicator_update_data get_cmap (Number v) w))
     = Some (case value_range w of
               None \<Rightarrow> (v, v)
             | Some old \<Rightarrow> (py_min (fst old) v, py_max (snd old) v))"
  by (simp add: Indicator_update_data_def assert_type_number_def Let_def
      split: list.splits option.splits sum.splits)

lemma update_step:
  assumes "\<not> is_nan v" and "nan_free (value_range w)"
  shows "nan_free (value_range (fst (Indicator_update_data get_cmap (Number v) w)))"
    and "covered_by (value_range w) (value_range (fst (Indicator_update_data get_cmap (Number v) w)))"
    and "in_range v (value_range (fst (Indicator_update_data get_cmap (Number v) w)))"
  using assms
  by (auto simp: value_range_after_update nan_free_def covered_by_def in_range_def
      py_min_props py_max_props py_le_refl split: option.splits)

lemma covered_by_refl: "nan_free r \<Longrightarrow> covered_by r r"
  by (auto simp: covered_by_def nan_free_def py_le_refl split: option.splits)

lemma covered_by_trans: "covered_by r r' \<Longrightarrow> covered_by r' r'' \<Longrightarrow> covered_by r r''"
  by (auto simp: covered_by_def split: option.splits intro: py_le_trans)

lemma in_range_covered: "in_range v r \<Longrightarrow> covered_by r r' \<Longrightarrow> in_range v r'"
  by (auto simp: covered_by_def in_range_def split: option.splits intro: py_le_trans)

lemma update_all_ok:
  assumes "nan_free (value_range w)" and "\<forall>u\<in>set vs. \<not> is_nan u"
  shows "nan_free (value_range (update_all get_cmap vs w))
       \<and> covered_by (value_range w) (value_range (update_all get_cmap vs w))
       \<and> (\<forall>u\<in>set vs. in_range u (value_range (update_all get_cmap vs w)))"
  using assms
proof (induction vs arbitrary: w)
  case Nil
  then show ?case by (simp add: covered_by_refl)
next
  case (Cons v vs)
  let ?w1 = "fst (Indicator_update_data get_cmap (Number v) w)"
  have v: "\<not> is_nan v" and rest: "\<forall>u\<in>set vs. \<not> is_nan u" using Cons.prems(2) by simp_all
  note st = update_step [OF v Cons.prems(1), of get_cmap]
  have ih: "nan_free (value_range (update_all get_cmap vs ?w1))
       \<and> covered_by (value_range ?w1) (value_range (update_all get_cmap vs ?w1))
       \<and> (\<forall>u\<in>set vs. in_range u (value_range (update_all get_cmap vs ?w1)))"
    using Cons.IH [OF st(1) rest] .
  have c: "covered_by (value_range w) (value_range (update_all get_cmap vs ?w1))"
    using covered_by_trans [OF st(2)] ih by blast
  have i: "in_range v (value_range (update_all get_cmap vs ?w1))"
    using in_range_covered [OF st(3)] ih by blast
  show ?case using ih c i by simp
qed

text \<open>
  Claim C9, as amended. After \<^verbatim>\<open>update_data(v)\<close> with a number \<open>v\<close> the stored
  range is \<open>(v, v)\<close> when none was stored and \<open>(min(lo, v), max(hi, v))\<close>, with
  Python's \<^verbatim>\<open>min\<close> and \<^verbatim>\<open>max\<close>, when \<open>(lo, hi)\<close> was, also when the call
  raises later on. Where no NaN is involved (neither in the stored range nor among the
  numbers passed) these are the smaller and the larger of the two, and one call, and
  any run of calls, leaves a range that covers the range before it and contains every
  number passed.
\<close>

theorem indicator_running_range:
  "value_range (fst (Indicator_update_data get_cmap (Number v) w))
     = Some (case value_range w of
               None \<Rightarrow> (v, v)
             | Some old \<Rightarrow> (py_min (fst old) v, py_max (snd old) v))
   \<and> (\<not> is_nan lo \<and> \<not> is_nan hi \<and> \<not> is_nan v \<longrightarrow>
        num_key (py_min lo v) = min (num_key lo) (num_key v)
        \<and> num_key (py_max hi v) = max (num_key hi) (num_key v))
   \<and> (nan_free (value_range w) \<and> \<not> is_nan v \<longrightarrow>
        nan_free (value_range (fst (Indicator_update_data get_cmap (Number v) w)))
        \<and> covered_by (value_range w)
             (value_range (fst (Indicator_update_data get_cmap (Number v) w)))
        \<and> in_range v (value_range (fst (Indicator_update_data get_cmap (Number v) w))))
   \<and> (nan_free (value_range w) \<and> (\<forall>u\<in>set vs. \<not> is_nan u) \<longrightarrow>
        nan_free (value_range (update_all get_cmap vs w))
        \<and> covered_by (value_range w) (value_range (update_all get_cmap vs w))
        \<and> (\<forall>u\<in>set vs. in_range u (value_range (update_all get_cmap vs w))))"
  using value_range_after_update [of get_cmap v w] update_step [of v w get_cmap]
    update_all_ok [of w vs get_cmap] py_min_props(4) [of lo v] py_max_props(4) [of hi v]
  by blast

text \<open>Three calls on a new widget, each of them returning normally.\<close>

theorem indicator_running_range_witness:
  "value_range (update_all example_cmaps [PyInt 2, PyInt 4, PyInt 3] example_indicator)
     = Some (PyInt 2, PyInt 4)
   \<and> in_range (PyInt 3)
        (value_range (update_all example_cmaps [PyInt 2, PyInt 4, PyInt 3] example_indicator))
   \<and> covered_by (value_range (update_all example_cmaps [PyInt 2] example_indicator))
        (value_range (update_all example_cmaps [PyInt 2, PyInt 4, PyInt 3] example_indicator))
   \<and> snd (Indicator_update_data example_cmaps (Number (PyInt 3))
          (update_all example_cmaps [PyInt 2, PyInt 4] example_indicator)) = None"
proof -
  let ?w1 = "update_all example_cmaps [PyInt 2] example_indicator"
  have r: "value_range (update_all example_cmaps [PyInt 2, PyInt 4, PyInt 3] example_indicator)
     = Some (PyInt 2, PyInt 4)"
    by (simp add: value_range_after_update py_min_def py_max_def py_lt_def example_indicator_def)
  have n0: "nan_free (value_range example_indicator)"
    by (simp add: nan_free_def example_indicator_def)
  have v: "\<forall>u\<in>set [PyInt 2, PyInt 4, PyInt 3]. \<not> is_nan u" by simp
  have i: "in_range (PyInt 3)
        (value_range (update_all example_cmaps [PyInt 2, PyInt 4, PyInt 3] example_indicator))"
    using indicator_running_range [of example_cmaps "PyInt 3" example_indicator "PyInt 2"
        "PyInt 4" "[PyInt 2, PyInt 4, PyInt 3]"] n0 v by simp
  have n1: "nan_free (value_range ?w1)"
    by (simp add: value_range_after_update nan_free_def example_indicator_def)
  have v1: "\<forall>u\<in>set [PyInt 4, PyInt 3]. \<not> is_nan u" by simp
  have c: "covered_by (value_range ?w1) (value_range (update_all example_cmaps [PyInt 4, PyInt 3] ?w1))"
    using indicator_running_range [of example_cmaps "PyInt 3" ?w1 "PyInt 2"
        "PyInt 4" "[PyInt 4, PyInt 3]"] n1 v1 by blast
  have s: "snd (Indicator_update_data example_cmaps (Number (PyInt 3))
          (update_all example_cmaps [PyInt 2, PyInt 4] example_indicator)) = None"
    by (simp add: eval_update)
  have c': "covered_by (value_range (update_all example_cmaps [PyInt 2] example_indicator))
        (value_range (update_all example_cmaps [PyInt 2, PyInt 4, PyInt 3] example_indicator))"
    using c by simp
  show ?thesis using r i c' s by blast
qed

lemma nan_run:
  "snd (Indicator_update_data example_cmaps (Number (PyFloat NaN)) example_indicator) = None"
  "snd (Indicator_update_data example_cmaps (Number (PyInt 5))
         (fst (Indicator_update_data example_cmaps (Number (PyFloat NaN)) example_indicator)))
     = None"
  by (simp_all add: eval_update)

text \<open>
  Claim C9 as stated fails for NaN, which is a float and passes the type check: every
  comparison with it is false, so after \<^verbatim>\<open>update_data(nan)\<close> the range is
  \<open>(nan, nan)\<close> and stays so, and the 5 passed next does not lie in it. Both calls
  return normally.
\<close>

theorem indicator_nan_counterexample:
  "value_range (update_all example_cmaps [PyFloat NaN, PyInt 5] example_indicator)
     = Some (PyFloat NaN, PyFloat NaN)
   \<and> \<not> in_range (PyInt 5)
         (value_range (update_all example_cmaps [PyFloat NaN, PyInt 5] example_indicator))
   \<and> snd (Indicator_update_data example_cmaps (Number (PyFloat NaN)) example_indicator) = None
   \<and> snd (Indicator_update_data example_cmaps (Number (PyInt 5))
         (fst (Indicator_update_data example_cmaps (Number (PyFloat NaN)) example_indicator)))
       = None"
proof -
  have r: "value_range (update_all example_cmaps [PyFloat NaN, PyInt 5] example_indicator)
     = Some (PyFloat NaN, PyFloat NaN)"
    by (simp add: value_range_after_update py_min_def py_max_def py_lt_def example_indicator_def)
  have n: "\<not> in_range (PyInt 5)
         (value_range (update_all example_cmaps [PyFloat NaN, PyInt 5] example_indicator))"
    unfolding r by (simp add: in_range_def py_le_def)
  show ?thesis using r n nan_run by blast
qed

subsection \<open>Shapes and traces\<close>

lemma to_2d_shape:
  assumes "to_2d a = Inr d"
  shows "\<exists>r c. shape d = [r, c]"
  using assms by (auto simp: to_2d_def split: list.splits)

lemma check_xy_shape_eq:
  assumes "shape d = [r, c]"
  shows "check_xy_shape d w =
     (if r = length (x_labels w) \<and> c = length (trace_names w) then None
      else Some ValidationError)"
  using assms by (simp add: check_xy_shape_def assert_same_shape_def shape_at_def)

lemma check_heatmap_shape_eq:
  assumes "shape d = [r, c]"
  shows "check_heatmap_shape d w =
     (if r = length (hm_y_labels w) \<and> c = length (hm_x_labels w) then None
      else Some ValidationError)"
  using assms by (simp add: check_heatmap_shape_def assert_same_shape_def shape_at_def)

lemma column_error: "column d i = Inl e \<Longrightarrow> e = IndexError"
  by (auto simp: column_def split: list.splits if_splits)

lemma column_ok: "shape d = [r, c] \<Longrightarrow> i < c \<Longrightarrow> \<exists>y. column d i = Inr y \<and> length y = r"
  by (simp add: column_def)

lemma bar_loop_error: "snd (bar_loop d i ts) = Some e \<Longrightarrow> e = IndexError"
  by (induction ts arbitrary: i) (auto simp: Let_def split: sum.splits dest: column_error)

lemma scatter_loop_error: "snd (scatter_loop d i ts) = Some e \<Longrightarrow> e = IndexError"
  by (induction ts arbitrary: i) (auto simp: Let_def split: sum.splits dest: column_error)

lemma bar_loop_ok:
  "shape d = [r, c] \<Longrightarrow> i + length ts \<le> c \<Longrightarrow> snd (bar_loop d i ts) = None"
proof (induction ts arbitrary: i)
  case Nil
  then show ?case by simp
next
  case (Cons t ts)
  then have "i < c" by simp
  from column_ok [OF Cons.prems(1) this] obtain y where "column d i = Inr y" by blast
  moreover have "snd (bar_loop d (Suc i) ts) = None"
    using Cons.IH [OF Cons.prems(1), of "Suc i"] Cons.prems(2) by simp
  ultimately show ?case by (simp add: Let_def)
qed

lemma scatter_loop_ok:
  "shape d = [r, c] \<Longrightarrow> i + length ts \<le> c \<Longrightarrow>
   snd (scatter_loop d i ts) = None
   \<and> length (fst (scatter_loop d i ts)) = length ts
   \<and> (\<forall>k<length ts. \<exists>y. column d (i + k) = Inr y
          \<and> fst (scatter_loop d i ts) ! k = (ts ! k)\<lparr>tr_y := Some y\<rparr>)"
proof (induction ts arbitrary: i)
  case Nil
  then show ?case by simp
next
  case (Cons t ts)
  then have "i < c" by simp
  from column_ok [OF Cons.prems(1) this] obtain y where y: "column d i = Inr y" by blast
  have ih: "snd (scatter_loop d (Suc i) ts) = None
     \<and> length (fst (scatter_loop d (Suc i) ts)) = length ts
     \<and> (\<forall>k<length ts. \<exists>y. column d (Suc i + k) = Inr y
          \<and> fst (scatter_loop d (Suc i) ts) ! k = (ts ! k)\<lparr>tr_y := Some y\<rparr>)"
    using Cons.IH [OF Cons.prems(1), of "Suc i"] Cons.prems(2) by simp
  have "\<exists>y'. column d (i + k) = Inr y'
          \<and> fst (scatter_loop d i (t # ts)) ! k = ((t # ts) ! k)\<lparr>tr_y := Some y'\<rparr>"
    if "k < length (t # ts)" for k
  proof (cases k)
    case 0
    then show ?thesis using y by (simp add: Let_def)
  next
    case (Suc k')
    then have "k' < length ts" using that by simp
    then show ?thesis using ih y Suc by (simp add: Let_def)
  qed
  then show ?case using ih y by (simp add: Let_def)
qed

lemma scatter_loop_frame:
  "map (\<lambda>t. t\<lparr>tr_y := None\<rparr>) (fst (scatter_loop d i ts)) = map (\<lambda>t. t\<lparr>tr_y := None\<rparr>) ts"
  by (induction ts arbitrary: i) (auto simp: Let_def split: sum.splits)

lemma to_2d_wf: "wf_array a \<Longrightarrow> to_2d a = Inr d \<Longrightarrow> wf_array d"
  by (auto simp: to_2d_def wf_array_def split: list.splits)

lemma bar_loop_length: "length (fst (bar_loop d i ts)) = length ts"
  by (induction ts arbitrary: i) (auto simp: Let_def split: sum.splits)

lemma scatter_loop_length: "length (fst (scatter_loop d i ts)) = length ts"
  by (induction ts arbitrary: i) (auto simp: Let_def split: sum.splits)

text \<open>
  The constructors make one trace per trace name, in the order of the names, and
  \<^verbatim>\<open>update_data\<close> keeps it so.
\<close>

lemma update_data_keeps_traces:
  "length (traces (fst (Bar_update_data arr w))) = length (traces w)
   \<and> length (traces (fst (Scatter_update_data arr w))) = length (traces w)
   \<and> trace_names (fst (Bar_update_data arr w)) = trace_names w
   \<and> trace_names (fst (Scatter_update_data arr w)) = trace_names w"
  by (simp add: Bar_update_data_def Scatter_update_data_def Let_def bar_loop_length
      scatter_loop_length split: sum.splits option.splits)


lemma add_traces_length: "add_traces xs kw i ns = Inr ts \<Longrightarrow> length ts = length ns"
  by (induction ns arbitrary: i ts) (auto split: sum.splits)

lemma xy_init_invariant:
  assumes "xy_init xs names_given kw layout_kwargs = Inr w"
  shows "length (traces w) = length (trace_names w) \<and> x_labels w = xs
         \<and> trace_names w = norm_trace_names names_given"
  using assms
  by (auto simp: xy_init_def Let_def split: list.splits sum.splits dest: add_traces_length)

lemma Bar_init_invariant:
  assumes "Bar_init xs names_given arr kw layout_kwargs = Inr w"
  shows "length (traces w) = length (trace_names w)"
proof -
  obtain w0 where w0: "xy_init xs names_given kw layout_kwargs = Inr w0"
    using assms by (auto simp: Bar_init_def split: sum.splits)
  have inv: "length (traces w0) = length (trace_names w0)"
    using xy_init_invariant [OF w0] by simp
  show ?thesis
  proof (cases arr)
    case None
    then show ?thesis using assms w0 inv by (simp add: Bar_init_def)
  next
    case (Some a)
    then have "w = fst (Bar_update_data a w0)"
      using assms w0 by (auto simp: Bar_init_def split: prod.splits option.splits)
    then show ?thesis using inv update_data_keeps_traces [of a w0] by simp
  qed
qed

lemma Scatter_init_invariant:
  assumes "Scatter_init xs names_given arr kw layout_kwargs = Inr w"
  shows "length (traces w) = length (trace_names w)"
proof -
  obtain w0 where w0: "xy_init xs names_given kw layout_kwargs = Inr w0"
    using assms by (auto simp: Scatter_init_def split: sum.splits)
  have inv: "length (traces w0) = length (trace_names w0)"
    using xy_init_invariant [OF w0] by simp
  show ?thesis
  proof (cases arr)
    case None
    then show ?thesis using assms w0 inv by (simp add: Scatter_init_def)
  next
    case (Some a)
    then have "w = fst (Scatter_update_data a w0)"
      using assms w0 by (auto simp: Scatter_init_def split: prod.splits option.splits)
    then show ?thesis using inv update_data_keeps_traces [of a w0] by simp
  qed
qed

text \<open>The first example of the docstring of \<^verbatim>\<open>Bar\<close>: two labels, one trace.\<close>

lemma bar_docstring:
  "Bar_init [''x'', ''y''] (OneName ''a'') (Some (NDArray [2] [1, 2 :: int])) (KwOne (\<lambda>t. t)) []
   = Inr \<lparr>x_labels = [''x'', ''y''], trace_names = [Some ''a''],
          layout = [''showlegend'' \<mapsto> ''True''],
          traces = [\<lparr>tr_x = [''x'', ''y''], tr_name = Some ''a'', tr_y = Some [1, 2],
                     tr_colorscale = None, tr_color = ColorUnset, tr_props = Map.empty\<rparr>]\<rparr>"
  by (simp add: Bar_init_def xy_init_def Bar_update_data_def to_2d_def check_xy_shape_def
      assert_same_shape_def shape_at_def column_def update_layout_def upt_rec numeral_2_eq_2)

text \<open>
  Claim C7. With the data in its two-dimensional form \<open>d\<close>, \<^verbatim>\<open>update_data\<close>
  raises the validation error exactly when the shape of \<open>d\<close> is not (number of x
  labels, number of trace names) for a Bar or a Scatter, and not (number of y labels,
  number of x labels) for a Heatmap; a call that fails so leaves the widget untouched.
  With a matching shape and the traces the constructor made (one per trace name, one
  for a heatmap) the call raises nothing at all.
\<close>

theorem update_data_shape_check:
  assumes "to_2d arr = Inr d"
  shows "(snd (Bar_update_data arr w) = Some ValidationError
            \<longleftrightarrow> shape d \<noteq> [length (x_labels w), length (trace_names w)])
       \<and> (snd (Scatter_update_data arr w) = Some ValidationError
            \<longleftrightarrow> shape d \<noteq> [length (x_labels w), length (trace_names w)])
       \<and> (snd (Heatmap_update_data arr h) = Some ValidationError
            \<longleftrightarrow> shape d \<noteq> [length (hm_y_labels h), length (hm_x_labels h)])
       \<and> (shape d \<noteq> [length (x_labels w), length (trace_names w)]
            \<longrightarrow> fst (Bar_update_data arr w) = w \<and> fst (Scatter_update_data arr w) = w)
       \<and> (shape d \<noteq> [length (hm_y_labels h), length (hm_x_labels h)]
            \<longrightarrow> fst (Heatmap_update_data arr h) = h)
       \<and> (shape d = [length (x_labels w), length (trace_names w)]
            \<and> length (traces w) = length (trace_names w)
            \<longrightarrow> snd (Bar_update_data arr w) = None \<and> snd (Scatter_update_data arr w) = None)
       \<and> (shape d = [length (hm_y_labels h), length (hm_x_labels h)] \<and> hm_traces h \<noteq> []
            \<longrightarrow> snd (Heatmap_update_data arr h) = None)"
proof -
  obtain r c where rc: "shape d = [r, c]" using to_2d_shape [OF assms] by blast
  have nb: "snd (bar_loop d 0 (traces w)) \<noteq> Some ValidationError"
    using bar_loop_error by fastforce
  have ns: "snd (scatter_loop d 0 (traces w)) \<noteq> Some ValidationError"
    using scatter_loop_error by fastforce
  have bar: "snd (Bar_update_data arr w) = Some ValidationError
            \<longleftrightarrow> shape d \<noteq> [length (x_labels w), length (trace_names w)]"
    using assms rc nb by (auto simp: Bar_update_data_def check_xy_shape_eq [OF rc] Let_def)
  have sca: "snd (Scatter_update_data arr w) = Some ValidationError
            \<longleftrightarrow> shape d \<noteq> [length (x_labels w), length (trace_names w)]"
    using assms rc ns by (auto simp: Scatter_update_data_def check_xy_shape_eq [OF rc] Let_def)
  have hea: "snd (Heatmap_update_data arr h) = Some ValidationError
            \<longleftrightarrow> shape d \<noteq> [length (hm_y_labels h), length (hm_x_labels h)]"
    using assms rc
    by (auto simp: Heatmap_update_data_def check_heatmap_shape_eq [OF rc] split: list.splits)
  have same: "shape d \<noteq> [length (x_labels w), length (trace_names w)]
            \<Longrightarrow> fst (Bar_update_data arr w) = w \<and> fst (Scatter_update_data arr w) = w"
    using assms rc
    by (auto simp: Bar_update_data_def Scatter_update_data_def check_xy_shape_eq [OF rc])
  have sameh: "shape d \<noteq> [length (hm_y_labels h), length (hm_x_labels h)]
            \<Longrightarrow> fst (Heatmap_update_data arr h) = h"
    using assms rc
    by (auto simp: Heatmap_update_data_def check_heatmap_shape_eq [OF rc])
  have ok: "snd (Bar_update_data arr w) = None \<and> snd (Scatter_update_data arr w) = None"
    if "shape d = [length (x_labels w), length (trace_names w)]"
      and "length (traces w) = length (trace_names w)"
  proof -
    have "0 + length (traces w) \<le> c" using that rc by simp
    then have "snd (bar_loop d 0 (traces w)) = None" "snd (scatter_loop d 0 (traces w)) = None"
      using bar_loop_ok [OF rc] scatter_loop_ok [OF rc] by blast+
    then show ?thesis
      using assms rc that(1)
      by (simp add: Bar_update_data_def Scatter_update_data_def check_xy_shape_eq [OF rc] Let_def)
  qed
  have okh: "snd (Heatmap_update_data arr h) = None"
    if "shape d = [length (hm_y_labels h), length (hm_x_labels h)]" and "hm_traces h \<noteq> []"
    using assms rc that
    by (auto simp: Heatmap_update_data_def check_heatmap_shape_eq [OF rc] split: list.splits)
  show ?thesis using bar sca hea same sameh ok okh by blast
qed

theorem update_data_shape_check_witness:
  "snd (Bar_update_data (NDArray [3] [1, 2, 3 :: int])
        \<lparr>x_labels = [''x'', ''y''], trace_names = [Some ''a''], layout = Map.empty,
         traces = [\<lparr>tr_x = [''x'', ''y''], tr_name = Some ''a'', tr_y = None,
                    tr_colorscale = None, tr_color = ColorUnset, tr_props = Map.empty\<rparr>]\<rparr>)
     = Some ValidationError
   \<and> snd (Scatter_update_data (NDArray [2] [1, 2 :: int])
        \<lparr>x_labels = [''x'', ''y''], trace_names = [Some ''a''], layout = Map.empty,
         traces = [\<lparr>tr_x = [''x'', ''y''], tr_name = Some ''a'', tr_y = None,
                    tr_colorscale = None, tr_color = ColorUnset, tr_props = Map.empty\<rparr>]\<rparr>)
     = None
   \<and> snd (Heatmap_update_data (NDArray [3] [1, 2, 3 :: int])
        \<lparr>hm_x_labels = [''a'', ''b''], hm_y_labels = [''x'', ''y''], hm_horizontal = False,
         hm_layout = Map.empty, hm_traces = []\<rparr>)
     = Some ValidationError"
proof -
  let ?w = "\<lparr>x_labels = [''x'', ''y''], trace_names = [Some ''a''], layout = Map.empty,
         traces = [\<lparr>tr_x = [''x'', ''y''], tr_name = Some ''a'', tr_y = None,
                    tr_colorscale = None, tr_color = ColorUnset :: int marker_color,
                    tr_props = Map.empty\<rparr>]\<rparr>"
  let ?h = "\<lparr>hm_x_labels = [''a'', ''b''], hm_y_labels = [''x'', ''y''], hm_horizontal = False,
         hm_layout = Map.empty, hm_traces = [] :: int heatmap_trace list\<rparr>"
  have bad: "to_2d (NDArray [3] [1, 2, 3 :: int]) = Inr (NDArray [3, 1] [1, 2, 3])"
    and good: "to_2d (NDArray [2] [1, 2 :: int]) = Inr (NDArray [2, 1] [1, 2])"
    by (simp_all add: to_2d_def)
  show ?thesis
    using update_data_shape_check [OF bad, of ?w ?h] update_data_shape_check [OF good, of ?w ?h]
    by simp
qed

text \<open>
  Claim C8. \<^verbatim>\<open>Scatter.update_data\<close> never changes the x labels, the trace names
  or the layout of the widget, and the traces after the call are the traces before it
  up to their y values: as many, in the same order, with the same x, name, colours and
  other properties. For correctly shaped data (and one trace per trace name) the call
  raises nothing and trace \<open>i\<close> has column \<open>i\<close> of the data as its y values.
\<close>

theorem scatter_update_only_y:
  "x_labels (fst (Scatter_update_data arr w)) = x_labels w
   \<and> trace_names (fst (Scatter_update_data arr w)) = trace_names w
   \<and> layout (fst (Scatter_update_data arr w)) = layout w
   \<and> map (\<lambda>t. t\<lparr>tr_y := None\<rparr>) (traces (fst (Scatter_update_data arr w)))
       = map (\<lambda>t. t\<lparr>tr_y := None\<rparr>) (traces w)
   \<and> (to_2d arr = Inr d \<and> shape d = [length (x_labels w), length (trace_names w)]
        \<and> length (traces w) = length (trace_names w)
      \<longrightarrow> snd (Scatter_update_data arr w) = None
        \<and> length (traces (fst (Scatter_update_data arr w))) = length (traces w)
        \<and> (\<forall>i<length (traces w). \<exists>y. column d i = Inr y
              \<and> traces (fst (Scatter_update_data arr w)) ! i = (traces w ! i)\<lparr>tr_y := Some y\<rparr>))"
proof -
  have frame: "x_labels (fst (Scatter_update_data arr w)) = x_labels w
   \<and> trace_names (fst (Scatter_update_data arr w)) = trace_names w
   \<and> layout (fst (Scatter_update_data arr w)) = layout w
   \<and> map (\<lambda>t. t\<lparr>tr_y := None\<rparr>) (traces (fst (Scatter_update_data arr w)))
       = map (\<lambda>t. t\<lparr>tr_y := None\<rparr>) (traces w)"
    by (simp add: Scatter_update_data_def Let_def scatter_loop_frame
        split: sum.splits option.splits)
  have ok: "snd (Scatter_update_data arr w) = None
        \<and> length (traces (fst (Scatter_update_data arr w))) = length (traces w)
        \<and> (\<forall>i<length (traces w). \<exists>y. column d i = Inr y
              \<and> traces (fst (Scatter_update_data arr w)) ! i = (traces w ! i)\<lparr>tr_y := Some y\<rparr>)"
    if a: "to_2d arr = Inr d" "shape d = [length (x_labels w), length (trace_names w)]"
      "length (traces w) = length (trace_names w)"
  proof -
    have le: "0 + length (traces w) \<le> length (trace_names w)" using a(3) by simp
    have "Scatter_update_data arr w
        = (w\<lparr>traces := fst (scatter_loop d 0 (traces w))\<rparr>, snd (scatter_loop d 0 (traces w)))"
      using a(1,2) by (simp add: Scatter_update_data_def check_xy_shape_eq [OF a(2)] Let_def)
    then show ?thesis using scatter_loop_ok [OF a(2) le] by simp
  qed
  show ?thesis using frame ok by blast
qed

theorem scatter_update_only_y_witness:
  "Scatter_update_data (NDArray [2, 2] [1, 2, 3, 4 :: int])
     \<lparr>x_labels = [''x'', ''y''], trace_names = [Some ''a'', Some ''b''],
      layout = [''showlegend'' \<mapsto> ''True''],
      traces = [\<lparr>tr_x = [''x'', ''y''], tr_name = Some ''a'', tr_y = None,
                 tr_colorscale = None, tr_color = ColorName ''red'', tr_props = Map.empty\<rparr>,
                \<lparr>tr_x = [''x'', ''y''], tr_name = Some ''b'', tr_y = Some [0, 0],
                 tr_colorscale = None, tr_color = ColorUnset, tr_props = Map.empty\<rparr>]\<rparr>
   = (\<lparr>x_labels = [''x'', ''y''], trace_names = [Some ''a'', Some ''b''],
      layout = [''showlegend'' \<mapsto> ''True''],
      traces = [\<lparr>tr_x = [''x'', ''y''], tr_name = Some ''a'', tr_y = Some [1, 3],
                 tr_colorscale = None, tr_color = ColorName ''red'', tr_props = Map.empty\<rparr>,
                \<lparr>tr_x = [''x'', ''y''], tr_name = Some ''b'', tr_y = Some [2, 4],
                 tr_colorscale = None, tr_color = ColorUnset, tr_props = Map.empty\<rparr>]\<rparr>, None)"
proof -
  let ?arr = "NDArray [2, 2] [1, 2, 3, 4 :: int]"
  let ?w = "\<lparr>x_labels = [''x'', ''y''], trace_names = [Some ''a'', Some ''b''],
      layout = [''showlegend'' \<mapsto> ''True''],
      traces = [\<lparr>tr_x = [''x'', ''y''], tr_name = Some ''a'', tr_y = None,
                 tr_colorscale = None, tr_color = ColorName ''red'', tr_props = Map.empty\<rparr>,
                \<lparr>tr_x = [''x'', ''y''], tr_name = Some ''b'', tr_y = Some [0, 0 :: int],
                 tr_colorscale = None, tr_color = ColorUnset, tr_props = Map.empty\<rparr>]\<rparr>"
  have h: "to_2d ?arr = Inr ?arr \<and> shape ?arr = [length (x_labels ?w), length (trace_names ?w)]
        \<and> length (traces ?w) = length (trace_names ?w)"
    by (simp add: to_2d_def)
  have c0: "column ?arr 0 = Inr [1, 3]" and c1: "column ?arr 1 = Inr [2, 4]"
    by (simp_all add: column_def upt_rec numeral_2_eq_2)
  from scatter_update_only_y [of ?arr ?w ?arr] h
  have r: "snd (Scatter_update_data ?arr ?w) = None"
    "x_labels (fst (Scatter_update_data ?arr ?w)) = x_labels ?w"
    "trace_names (fst (Scatter_update_data ?arr ?w)) = trace_names ?w"
    "layout (fst (Scatter_update_data ?arr ?w)) = layout ?w"
    "length (traces (fst (Scatter_update_data ?arr ?w))) = length (traces ?w)"
    "\<forall>i<length (traces ?w). \<exists>y. column ?arr i = Inr y
        \<and> traces (fst (Scatter_update_data ?arr ?w)) ! i = (traces ?w ! i)\<lparr>tr_y := Some y\<rparr>"
    by blast+
  have t0: "traces (fst (Scatter_update_data ?arr ?w)) ! 0 = (traces ?w ! 0)\<lparr>tr_y := Some [1, 3]\<rparr>"
    using r(6) c0 by fastforce
  have t1: "traces (fst (Scatter_update_data ?arr ?w)) ! 1 = (traces ?w ! 1)\<lparr>tr_y := Some [2, 4]\<rparr>"
    using r(6) c1 by fastforce
  have "traces (fst (Scatter_update_data ?arr ?w))
      = [traces (fst (Scatter_update_data ?arr ?w)) ! 0, traces (fst (Scatter_update_data ?arr ?w)) ! 1]"
    using r(5) by (intro nth_equalityI) (auto simp: less_Suc_eq)
  then have "traces (fst (Scatter_update_data ?arr ?w))
      = [(traces ?w ! 0)\<lparr>tr_y := Some [1, 3]\<rparr>, (traces ?w ! 1)\<lparr>tr_y := Some [2, 4]\<rparr>]"
    using t0 t1 by simp
  then have "fst (Scatter_update_data ?arr ?w)
      = ?w\<lparr>traces := [(traces ?w ! 0)\<lparr>tr_y := Some [1, 3]\<rparr>, (traces ?w ! 1)\<lparr>tr_y := Some [2, 4]\<rparr>]\<rparr>"
    using r(2,3,4) by (intro xy_widget.equality) simp_all
  then show ?thesis using r(1) by (simp add: prod_eq_iff)
qed

end
